theory Spec2Isabelle
  imports Complex_Main "HOL-Library.Multiset"
begin

section \<open>Numbers, exceptions and tables\<close>

text \<open>
  The script computes with numpy/pandas floating-point columns.  A float is modelled
  as an exact real or one of the three IEEE special values; rounding is not modelled,
  the special values and their propagation are.
\<close>

datatype pyfloat = Fin real | PInf | NInf | NaN

text \<open>The four \<^verbatim>\<open>assert\<close> statements of \<^verbatim>\<open>distribute_clusters\<close>, in source order.\<close>

datatype check = ClusterRange | FocusSum | WeightSum | SolverStatus

datatype error =
    AssertionError check
  | KeyError
  | ValueError
  | AttributeError
  | NameError

text \<open>Elementwise IEEE arithmetic as numpy performs it (no exception on division by zero).\<close>

fun fadd :: "pyfloat \<Rightarrow> pyfloat \<Rightarrow> pyfloat" where
  "fadd NaN _ = NaN"
| "fadd _ NaN = NaN"
| "fadd (Fin a) (Fin b) = Fin (a + b)"
| "fadd PInf NInf = NaN"
| "fadd NInf PInf = NaN"
| "fadd PInf _ = PInf"
| "fadd _ PInf = PInf"
| "fadd NInf _ = NInf"
| "fadd _ NInf = NInf"

fun fsign :: "pyfloat \<Rightarrow> int" where
  "fsign (Fin a) = (if a < 0 then - 1 else if a = 0 then 0 else 1)"
| "fsign PInf = 1"
| "fsign NInf = - 1"
| "fsign NaN = 0"

fun fmul :: "pyfloat \<Rightarrow> pyfloat \<Rightarrow> pyfloat" where
  "fmul NaN _ = NaN"
| "fmul _ NaN = NaN"
| "fmul (Fin a) (Fin b) = Fin (a * b)"
| "fmul a b =
     (if fsign a * fsign b = 0 then NaN else if fsign a * fsign b < 0 then NInf else PInf)"

fun fdiv :: "pyfloat \<Rightarrow> pyfloat \<Rightarrow> pyfloat" where
  "fdiv NaN _ = NaN"
| "fdiv _ NaN = NaN"
| "fdiv (Fin a) (Fin b) =
     (if b = 0 then (if a = 0 then NaN else if a < 0 then NInf else PInf) else Fin (a / b))"
| "fdiv (Fin a) _ = Fin 0"
| "fdiv a (Fin b) = (if fsign a * (if b < 0 then - 1 else 1) < 0 then NInf else PInf)"
| "fdiv _ _ = NaN"

fun fless :: "pyfloat \<Rightarrow> pyfloat \<Rightarrow> bool" where
  "fless NaN _ = False"
| "fless _ NaN = False"
| "fless (Fin a) (Fin b) = (a < b)"
| "fless PInf _ = False"
| "fless _ PInf = True"
| "fless _ NInf = False"
| "fless NInf _ = True"

text \<open>Python's \<^verbatim>\<open><=\<close>, unary minus and \<^verbatim>\<open>-\<close> on floats.\<close>

fun fle :: "pyfloat \<Rightarrow> pyfloat \<Rightarrow> bool" where
  "fle NaN _ = False"
| "fle _ NaN = False"
| "fle (Fin a) (Fin b) = (a \<le> b)"
| "fle NInf _ = True"
| "fle _ PInf = True"
| "fle _ _ = False"

fun fneg :: "pyfloat \<Rightarrow> pyfloat" where
  "fneg (Fin a) = Fin (- a)"
| "fneg PInf = NInf"
| "fneg NInf = PInf"
| "fneg NaN = NaN"

definition fsub :: "pyfloat \<Rightarrow> pyfloat \<Rightarrow> pyfloat" where
  "fsub a b = fadd a (fneg b)"

definition is_nan :: "pyfloat \<Rightarrow> bool" where
  "is_nan v = (case v of NaN \<Rightarrow> True | _ \<Rightarrow> False)"

definition fillna :: "pyfloat \<Rightarrow> pyfloat \<Rightarrow> pyfloat" where
  "fillna d v = (if is_nan v then d else v)"

text \<open>\<^verbatim>\<open>Series.sum()\<close> and \<^verbatim>\<open>Series.max()\<close> skip NaN entries (\<^verbatim>\<open>skipna=True\<close>).\<close>

definition series_sum :: "pyfloat list \<Rightarrow> pyfloat" where
  "series_sum vs = foldl fadd (Fin 0) (filter (\<lambda>v. \<not> is_nan v) vs)"

definition series_max :: "pyfloat list \<Rightarrow> pyfloat" where
  "series_max vs =
     (case filter (\<lambda>v. \<not> is_nan v) vs of
        [] \<Rightarrow> NaN
      | u # us \<Rightarrow> foldl (\<lambda>m v. if fless m v then v else m) u us)"

text \<open>\<^verbatim>\<open>Series.clip(lower=lo)\<close>: NaN stays NaN.\<close>

definition clip_lower :: "real \<Rightarrow> pyfloat \<Rightarrow> pyfloat" where
  "clip_lower lo v = (if fless v (Fin lo) then Fin lo else v)"

text \<open>
  \<^verbatim>\<open>astype(int)\<close> on one float: truncation towards zero; pandas refuses NaN and the
  infinities with a \<^verbatim>\<open>ValueError\<close>.
\<close>

definition trunc :: "real \<Rightarrow> int" where
  "trunc a = (if a < 0 then \<lceil>a\<rceil> else \<lfloor>a\<rfloor>)"

fun astype_int1 :: "pyfloat \<Rightarrow> error + int" where
  "astype_int1 (Fin a) = Inr (trunc a)"
| "astype_int1 _ = Inl ValueError"

text \<open>Running a fallible step over a list stops at the first error.\<close>

fun mapM :: "('a \<Rightarrow> error + 'b) \<Rightarrow> 'a list \<Rightarrow> error + 'b list" where
  "mapM f [] = Inr []"
| "mapM f (x # xs) =
     (case f x of
        Inl e \<Rightarrow> Inl e
      | Inr y \<Rightarrow> (case mapM f xs of Inl e \<Rightarrow> Inl e | Inr ys \<Rightarrow> Inr (y # ys)))"

text \<open>
  A pandas Series is an association list from index label to value.  Row order is
  kept as the rows are produced; \<^verbatim>\<open>groupby\<close> keys are listed in order of first
  appearance (pandas sorts them; nothing below depends on the order).
\<close>

type_synonym ('k, 'v) series = "('k \<times> 'v) list"

definition astype_int :: "('k, pyfloat) series \<Rightarrow> error + ('k, int) series" where
  "astype_int s = mapM (\<lambda>(k, v). case astype_int1 v of Inl e \<Rightarrow> Inl e | Inr i \<Rightarrow> Inr (k, i)) s"

definition reindex :: "('k, pyfloat) series \<Rightarrow> 'k list \<Rightarrow> pyfloat \<Rightarrow> ('k, pyfloat) series" where
  "reindex s ks fill = map (\<lambda>k. (k, case map_of s k of Some v \<Rightarrow> v | None \<Rightarrow> fill)) ks"

text \<open>\<^verbatim>\<open>def normed(x): return (x/x.sum()).fillna(0.)\<close>\<close>

definition normed :: "('k, pyfloat) series \<Rightarrow> ('k, pyfloat) series" where
  "normed x = map (\<lambda>(k, v). (k, fillna (Fin 0) (fdiv v (series_sum (map snd x))))) x"

section \<open>The network\<close>

record bus =
  bus_name :: string
  country :: string
  sub_network :: string

record line =
  bus0 :: string
  bus1 :: string
  line_x :: pyfloat
  line_r :: pyfloat
  s_nom :: pyfloat

text \<open>Rows of \<^verbatim>\<open>n.generators\<close> and \<^verbatim>\<open>n.storage_units\<close>: bus, carrier, \<^verbatim>\<open>p_nom\<close>.\<close>

record one_port =
  u_bus :: string
  carrier :: string
  p_nom :: pyfloat

text \<open>A load with the time mean of its \<^verbatim>\<open>loads_t.p_set\<close> column.\<close>

record load =
  l_bus :: string
  p_set_mean :: pyfloat

text \<open>
  Rows of \<^verbatim>\<open>n.links\<close>: the name (the index) and the columns
  \<^verbatim>\<open>underwater_fraction\<close>, \<^verbatim>\<open>length\<close> and \<^verbatim>\<open>capital_cost\<close>.
\<close>

record link =
  link_name :: string
  underwater_fraction :: pyfloat
  link_length :: pyfloat
  capital_cost :: pyfloat

record network =
  buses :: "bus list"
  lines :: "line list"
  generators :: "one_port list"
  storage_units :: "one_port list"
  loads :: "load list"
  links :: "link list"

section \<open>Node weighting\<close>

definition conv_carriers :: "string list" where
  "conv_carriers = [''OCGT'', ''CCGT'', ''PHS'', ''hydro'']"

text \<open>
  \<^verbatim>\<open>units.loc[units.carrier.isin(conv_carriers)].groupby('bus').p_nom.sum()
     .reindex(n.buses.index, fill_value=0.)\<close>
\<close>

definition conv_p_nom :: "one_port list \<Rightarrow> string list \<Rightarrow> (string, pyfloat) series" where
  "conv_p_nom us idx =
     (let conv = filter (\<lambda>u. carrier u \<in> set conv_carriers) us
      in reindex
           (map (\<lambda>b. (b, series_sum (map p_nom (filter (\<lambda>u. u_bus u = b) conv))))
              (remdups (map u_bus conv)))
           idx (Fin 0))"

text \<open>\<^verbatim>\<open>n.loads_t.p_set.mean().groupby(n.loads.bus).sum()\<close>\<close>

definition bus_load :: "network \<Rightarrow> (string, pyfloat) series" where
  "bus_load n =
     map (\<lambda>b. (b, series_sum (map p_set_mean (filter (\<lambda>l. l_bus l = b) (loads n)))))
       (remdups (map l_bus (loads n)))"

text \<open>
  \<^verbatim>\<open>weighting_for_country(n, x)\<close>; \<^verbatim>\<open>b_i\<close> is the index of the group \<^verbatim>\<open>x\<close>.
  \<^verbatim>\<open>100. / w.max()\<close> divides by a numpy scalar, so a zero maximum gives an infinity,
  not a \<^verbatim>\<open>ZeroDivisionError\<close>.
\<close>

definition weighting_for_country :: "network \<Rightarrow> string list \<Rightarrow> error + (string, int) series" where
  "weighting_for_country n b_i =
     (let idx = map bus_name (buses n);
          gen = map2 (\<lambda>(b, u) (_, v). (b, fadd u v))
                  (conv_p_nom (generators n) idx) (conv_p_nom (storage_units n) idx);
          g = normed (reindex gen b_i (Fin 0));
          l = normed (reindex (bus_load n) b_i (Fin 0));
          w = map2 (\<lambda>(b, u) (_, v). (b, fadd u v)) g l;
          scale = fdiv (Fin 100) (series_max (map snd w))
      in astype_int (map (\<lambda>(b, v). (b, clip_lower 1 (fmul v scale))) w))"

section \<open>Cluster allocation\<close>

type_synonym group_key = "string \<times> string"

definition key_of :: "bus \<Rightarrow> group_key" where
  "key_of b = (country b, sub_network b)"

text \<open>\<^verbatim>\<open>N = n.buses.groupby(['country', 'sub_network']).size()\<close>\<close>

definition group_sizes :: "network \<Rightarrow> (group_key, nat) series" where
  "group_sizes n =
     map (\<lambda>k. (k, length (filter (\<lambda>b. key_of b = k) (buses n))))
       (remdups (map key_of (buses n)))"

text \<open>
  \<^verbatim>\<open>L = (n.loads_t.p_set.mean().groupby(n.loads.bus).sum()
          .groupby([n.buses.country, n.buses.sub_network]).sum().pipe(normed))\<close>

  The second \<^verbatim>\<open>groupby\<close> aligns the two bus columns with the index of the per-bus
  load, so only buses that carry a load contribute a row, and a group none of whose
  buses carries a load has no entry in \<^verbatim>\<open>L\<close>.
\<close>

definition load_rows :: "network \<Rightarrow> (group_key, pyfloat) series" where
  "load_rows n =
     concat (map (\<lambda>(b, v).
        case map_of (map (\<lambda>u. (bus_name u, key_of u)) (buses n)) b of
          None \<Rightarrow> []
        | Some k \<Rightarrow> [(k, v)]) (bus_load n))"

definition load_share :: "network \<Rightarrow> (group_key, pyfloat) series" where
  "load_share n =
     normed (map (\<lambda>k. (k, series_sum (map snd (filter (\<lambda>(k', v). k' = k) (load_rows n)))))
               (remdups (map fst (load_rows n))))"

text \<open>
  The focus loop, one dictionary item at a time:
  \<^verbatim>\<open>L[country] = weight / len(L[country])\<close>.  Selecting a country that has no row in
  \<^verbatim>\<open>L\<close> raises \<^verbatim>\<open>KeyError\<close>.
\<close>

fun focus_loop ::
  "(string \<times> real) list \<Rightarrow> (group_key, pyfloat) series \<Rightarrow> error + (group_key, pyfloat) series"
where
  "focus_loop [] L = Inr L"
| "focus_loop ((c, weight) # items) L =
     (let len = length (filter (\<lambda>(k, v). fst k = c) L)
      in if len = 0 then Inl KeyError
         else focus_loop items
                (map (\<lambda>(k, v). (k, if fst k = c then Fin (weight / real len) else v)) L))"

text \<open>
  \<^verbatim>\<open>remainder = [c not in focus_weights.keys() for c in L.index.get_level_values('country')]
  L[remainder] = L.loc[remainder].pipe(normed) * (1 - total_focus)\<close>
\<close>

definition renormalise_remainder ::
  "(string \<times> real) list \<Rightarrow> pyfloat \<Rightarrow> (group_key, pyfloat) series \<Rightarrow> (group_key, pyfloat) series"
where
  "renormalise_remainder focus_weights total_focus L =
     (let remainder = (\<lambda>k. fst k \<notin> set (map fst focus_weights));
          rest = map (\<lambda>(k, v). (k, fmul v (fsub (Fin 1) total_focus)))
                   (normed (filter (\<lambda>(k, v). remainder k) L))
      in map (\<lambda>(k, v). (k, if remainder k
                               then (case map_of rest k of Some v' \<Rightarrow> v' | None \<Rightarrow> v)
                               else v)) L)"

text \<open>
  \<^verbatim>\<open>np.isclose(a, b, rtol=rtol)\<close> with the default \<^verbatim>\<open>atol = 1e-8\<close>; a NaN or infinite
  \<^verbatim>\<open>a\<close> is never close to a finite \<^verbatim>\<open>b\<close>.
\<close>

definition isclose :: "pyfloat \<Rightarrow> real \<Rightarrow> real \<Rightarrow> bool" where
  "isclose a b rtol = (case a of Fin v \<Rightarrow> \<bar>v - b\<bar> \<le> 1 / 10 ^ 8 + rtol * \<bar>b\<bar> | _ \<Rightarrow> False)"

text \<open>
  The load shares after the optional focus override (lines 196--208).

  \<^verbatim>\<open>total_focus = sum(list(focus_weights.values()))\<close> is the sum of Python's built-in
  \<^verbatim>\<open>sum\<close> on floats, \<open>float_sum\<close>: the values are added in floating point, so the result
  is a rounded sum, which can differ from the exact sum of the values in the last
  places (in either direction) and depends on the interpreter (CPython up to 3.11 adds
  from left to right and rounds every partial sum, later versions compensate the
  rounding errors).  It is a parameter of the embedding.  The assertion
  \<^verbatim>\<open>total_focus <= 1.0\<close> (line 200) and the factor \<^verbatim>\<open>1 - total_focus\<close> are computed from
  that float; the weights themselves are finite floats.
\<close>

definition adjusted_share ::
  "(real list \<Rightarrow> pyfloat) \<Rightarrow> (string \<times> real) list option \<Rightarrow> (group_key, pyfloat) series \<Rightarrow>
     error + (group_key, pyfloat) series"
where
  "adjusted_share float_sum focus_weights L =
     (case focus_weights of
        None \<Rightarrow> Inr L
      | Some fw \<Rightarrow>
          (let total_focus = float_sum (map snd fw)
           in if \<not> fle total_focus (Fin 1) then Inl (AssertionError FocusSum)
              else (case focus_loop fw L of
                      Inl e \<Rightarrow> Inl e
                    | Inr L1 \<Rightarrow> Inr (renormalise_remainder fw total_focus L1))))"

text \<open>
  The pyomo model handed to the solver: one integer variable per row of \<^verbatim>\<open>L\<close> with
  bounds \<^verbatim>\<open>(1, N[n_id])\<close>, the constraint that the variables sum to \<^verbatim>\<open>n_clusters\<close>, and
  the objective \<^verbatim>\<open>sum((m.n[i] - L.loc[i]*n_clusters)**2 for i in L.index)\<close>.
\<close>

record var_decl =
  v_key :: group_key
  v_upper :: nat
  v_share :: pyfloat

record model =
  m_vars :: "var_decl list"
  m_total :: int

text \<open>
  A solver plugin as the script uses it: whether it reports the capability
  \<^verbatim>\<open>quadratic_objective\<close>, and what \<^verbatim>\<open>opt.solve(m)\<close> leaves behind: whether the status is
  \<^verbatim>\<open>'ok'\<close>, and the values \<^verbatim>\<open>m.n.get_values()\<close> of the variables.  The solvers are
  external programs; they are parameters of the embedding.
\<close>

record solver =
  quadratic_objective :: bool
  solve :: "model \<Rightarrow> bool \<times> (group_key \<Rightarrow> pyfloat)"

definition build_model ::
  "(group_key, nat) series \<Rightarrow> (group_key, pyfloat) series \<Rightarrow> int \<Rightarrow> error + model"
where
  "build_model N L n_clusters =
     (case mapM (\<lambda>(k, v). case map_of N k of
                             None \<Rightarrow> Inl KeyError
                           | Some u \<Rightarrow> Inr \<lparr>v_key = k, v_upper = u, v_share = v\<rparr>) L of
        Inl e \<Rightarrow> Inl e
      | Inr vs \<Rightarrow> Inr \<lparr>m_vars = vs, m_total = n_clusters\<rparr>)"

text \<open>
  \<^verbatim>\<open>distribute_clusters(n, n_clusters, focus_weights=None, solver_name=None)\<close>.
  \<^verbatim>\<open>SolverFactory\<close> maps a solver name to the plugin; \<^verbatim>\<open>config_solver\<close> is
  \<^verbatim>\<open>snakemake.config['solving']['solver']['name']\<close>; \<open>float_sum\<close> is Python's \<^verbatim>\<open>sum\<close> on
  floats.
\<close>

definition distribute_clusters ::
  "(real list \<Rightarrow> pyfloat) \<Rightarrow> (string \<Rightarrow> solver) \<Rightarrow> string \<Rightarrow> network \<Rightarrow> int \<Rightarrow>
     (string \<times> real) list option \<Rightarrow> string option \<Rightarrow> error + (group_key, int) series"
where
  "distribute_clusters float_sum SolverFactory config_solver n n_clusters focus_weights
       solver_name =
     (let solver_name = (case solver_name of None \<Rightarrow> config_solver | Some s \<Rightarrow> s);
          L = load_share n;
          N = group_sizes n
      in if \<not> (int (length N) \<le> n_clusters \<and> n_clusters \<le> int (sum_list (map snd N)))
         then Inl (AssertionError ClusterRange)
         else (case adjusted_share float_sum focus_weights L of
                 Inl e \<Rightarrow> Inl e
               | Inr L \<Rightarrow>
                   if \<not> isclose (series_sum (map snd L)) 1 (1 / 10 ^ 3)
                   then Inl (AssertionError WeightSum)
                   else (case build_model N L n_clusters of
                           Inl e \<Rightarrow> Inl e
                         | Inr m \<Rightarrow>
                             (let opt = SolverFactory solver_name;
                                  opt = (if \<not> quadratic_objective opt
                                         then SolverFactory ''ipopt'' else opt);
                                  results = solve opt m
                              in if \<not> fst results then Inl (AssertionError SolverStatus)
                                 else astype_int (map (\<lambda>(k, v). (k, snd results k)) L)))))"

section \<open>Network topology\<close>

text \<open>Python's \<^verbatim>\<open>str\<close> on a non-negative integer: its decimal digits.\<close>

definition digit_char :: "nat \<Rightarrow> char" where
  "digit_char d =
     (if d = 0 then CHR ''0'' else if d = 1 then CHR ''1'' else if d = 2 then CHR ''2''
      else if d = 3 then CHR ''3'' else if d = 4 then CHR ''4'' else if d = 5 then CHR ''5''
      else if d = 6 then CHR ''6'' else if d = 7 then CHR ''7'' else if d = 8 then CHR ''8''
      else CHR ''9'')"

fun str_nat :: "nat \<Rightarrow> string" where
  "str_nat k = (if k < 10 then [digit_char k] else str_nat (k div 10) @ [digit_char (k mod 10)])"

declare str_nat.simps [simp del]

text \<open>
  \<^verbatim>\<open>n.determine_network_topology()\<close> is PyPSA's: it labels the connected components
  of the graph of passive branches (here: the lines) with \<^verbatim>\<open>0, 1, ...\<close>, in the order of
  each component's first bus, and writes \<^verbatim>\<open>labels.astype(str)\<close> into
  \<^verbatim>\<open>n.buses.sub_network\<close>.  \<open>reach\<close> collects what the lines connect to a set of
  buses in a given number of rounds.
\<close>

fun reach :: "line list \<Rightarrow> nat \<Rightarrow> string list \<Rightarrow> string list" where
  "reach ls 0 vs = vs"
| "reach ls (Suc k) vs =
     reach ls k
       (remdups (vs @ concat (map (\<lambda>l. if bus0 l \<in> set vs \<or> bus1 l \<in> set vs
                                         then [bus0 l, bus1 l] else []) ls)))"

fun label_components ::
  "line list \<Rightarrow> nat \<Rightarrow> string list \<Rightarrow> nat \<Rightarrow> (string \<times> nat) list \<Rightarrow> (string \<times> nat) list"
where
  "label_components ls fuel [] i acc = acc"
| "label_components ls fuel (v # vs) i acc =
     (if v \<in> set (map fst acc) then label_components ls fuel vs i acc
      else label_components ls fuel vs (Suc i)
             (acc @ map (\<lambda>u. (u, i)) (filter (\<lambda>u. u \<notin> set (map fst acc)) (reach ls fuel [v]))))"

definition determine_network_topology :: "network \<Rightarrow> network" where
  "determine_network_topology n =
     (let labels = label_components (lines n) (length (buses n)) (map bus_name (buses n)) 0 []
      in n\<lparr>buses := map (\<lambda>b. b\<lparr>sub_network :=
                             (case map_of labels (bus_name b) of
                                Some i \<Rightarrow> str_nat i
                              | None \<Rightarrow> sub_network b)\<rparr>) (buses n)\<rparr>)"

section \<open>Clustering strategies\<close>

text \<open>
  A graph as it is handed to networkx: the nodes, and the weighted edges in the order
  of \<^verbatim>\<open>add_edges_from\<close>.  A partition maps a node to the number of its community.
\<close>

type_synonym graph = "string list \<times> (string \<times> string \<times> pyfloat) list"
type_synonym partition = "(string \<times> nat) list"
type_synonym busmap = "(string, string) series"

text \<open>
  The library routines the strategies call; they are parameters of the embedding.
  \<^item> \<open>busmap_by_kmeans\<close> and \<open>busmap_by_spectral_clustering\<close>: PyPSA's.
  \<^item> \<open>hac_labels\<close>: the feature table of \<^verbatim>\<open>busmap_by_hac\<close> (lines 249--272) and
    \<^verbatim>\<open>AgglomerativeClustering(...).fit_predict(data)\<close>.
  \<^item> \<open>community\<close>: what the global name \<^verbatim>\<open>community\<close> is bound to when
    \<^verbatim>\<open>busmap_by_louvain\<close> runs, if anything.  The module itself does not bind it (its
    \<^verbatim>\<open>import community\<close>, line 140, is commented out), so for the file as it stands
    the value is \<open>None\<close>.  When bound, it is \<^verbatim>\<open>community.best_partition(G,
    resolution=res)\<close>; that routine is randomised, so it also takes the number of the
    call within one run of \<^verbatim>\<open>busmap_by_louvain\<close>.
  \<^item> \<open>greedy_modularity\<close>: of the repository's module \<^verbatim>\<open>newman\<close>; the communities
    as lists of nodes.
  \<^item> \<open>calculate_dependent_values\<close>: PyPSA's; it rewrites columns of the branch
    tables (the lines here) and leaves the buses alone.
  \<^item> \<open>get_clustering_from_busmap\<close>: PyPSA's network reducer.  It is handed the
    network, the busmap and keyword arguments, of which
    \<^verbatim>\<open>aggregate_generators_carriers\<close>, \<^verbatim>\<open>line_length_factor\<close> and the \<^verbatim>\<open>p_nom_max\<close>
    entry of \<^verbatim>\<open>generator_strategies\<close> vary; the others are constants of the module
    (\<^verbatim>\<open>bus_strategies=dict(country=_make_consense("Bus", "country"))\<close>,
    \<^verbatim>\<open>aggregate_generators_weighted=True\<close>,
    \<^verbatim>\<open>aggregate_one_ports=["Load", "StorageUnit"]\<close>,
    \<^verbatim>\<open>scale_link_capital_costs=False\<close>).  It returns a \<^verbatim>\<open>Clustering\<close>: the reduced
    network with the busmap and the line map, or it raises.
\<close>

datatype strategy = NpSum | NpMin

record reducer_options =
  kw_aggregate_generators_carriers :: "string list option"
  kw_line_length_factor :: real
  kw_p_nom_max_strategy :: strategy

record clustering =
  c_network :: network
  c_busmap :: busmap
  c_linemap :: "(string, string) series"

record library =
  busmap_by_kmeans ::
    "network \<Rightarrow> (string, int) series \<Rightarrow> int \<Rightarrow> string list \<Rightarrow> (string \<times> real) list \<Rightarrow>
       error + busmap"
  busmap_by_spectral_clustering :: "network \<Rightarrow> int \<Rightarrow> (string \<times> real) list \<Rightarrow> error + busmap"
  hac_labels :: "network \<Rightarrow> int \<Rightarrow> string list \<Rightarrow> string \<Rightarrow> error + nat list"
  community :: "(nat \<Rightarrow> graph \<Rightarrow> pyfloat \<Rightarrow> partition) option"
  greedy_modularity :: "graph \<Rightarrow> int \<Rightarrow> string list list"
  calculate_dependent_values :: "network \<Rightarrow> line list"
  get_clustering_from_busmap :: "network \<Rightarrow> busmap \<Rightarrow> reducer_options \<Rightarrow> error + clustering"

text \<open>\<^verbatim>\<open>reduce_network(n, buses)\<close>: the group's buses and the lines between them.\<close>

definition reduce_network :: "network \<Rightarrow> bus list \<Rightarrow> network" where
  "reduce_network n bs =
     \<lparr>buses = bs,
      lines = filter (\<lambda>l. bus0 l \<in> set (map bus_name bs) \<and> bus1 l \<in> set (map bus_name bs))
                (lines n),
      generators = [], storage_units = [], loads = [], links = []\<rparr>"

text \<open>\<^verbatim>\<open>pd.Series(data, index=index)\<close>: the lengths must agree.\<close>

definition make_series :: "'v list \<Rightarrow> 'k list \<Rightarrow> error + ('k, 'v) series" where
  "make_series vs ks = (if length vs = length ks then Inr (zip ks vs) else Inl ValueError)"

definition busmap_by_hac ::
  "library \<Rightarrow> network \<Rightarrow> int \<Rightarrow> string list \<Rightarrow> string \<Rightarrow> error + busmap"
where
  "busmap_by_hac lib n n_clusters buses_i feature =
     (case hac_labels lib n n_clusters buses_i feature of
        Inl e \<Rightarrow> Inl e
      | Inr labels \<Rightarrow> make_series (map str_nat labels) buses_i)"

text \<open>\<^verbatim>\<open>len(pd.Series(b).unique())\<close>: the number of communities of a partition.\<close>

definition n_communities :: "partition \<Rightarrow> int" where
  "n_communities b = int (length (remdups (map snd b)))"

text \<open>\<^verbatim>\<open>n_clusters**1.5\<close> and \<^verbatim>\<open>c**1.5\<close> (numpy: a negative base gives NaN).\<close>

definition pow15 :: "int \<Rightarrow> pyfloat" where
  "pow15 k = (if k < 0 then NaN else Fin (real_of_int k powr (3 / 2)))"

text \<open>
  The \<^verbatim>\<open>while\<close> loop of \<^verbatim>\<open>busmap_by_louvain\<close> (lines 301--316).  The state is the
  number of calls of \<^verbatim>\<open>best_partition\<close> made so far, \<^verbatim>\<open>res\<close>, \<^verbatim>\<open>b\<close>, \<^verbatim>\<open>bu\<close> and
  \<^verbatim>\<open>c\<close>; the result is the number of calls and \<^verbatim>\<open>bu\<close> when the loop is left.
\<close>

function louvain_while ::
  "(nat \<Rightarrow> pyfloat \<Rightarrow> partition) \<Rightarrow> int \<Rightarrow> nat \<Rightarrow> pyfloat \<Rightarrow> partition \<Rightarrow> partition \<Rightarrow> nat \<Rightarrow>
     nat \<times> partition"
where
  "louvain_while bp n_clusters calls res b bu c =
     (if n_communities b \<noteq> n_clusters \<and> c < 500 then
        (let (calls1, b1, res1) =
               (if n_communities b < n_clusters
                then (Suc calls, bp calls res, fdiv res (Fin (real (c ^ 2))))
                else (calls, b, res));
             (calls2, b2, res2) =
               (if n_communities b1 > n_clusters
                then (Suc calls1, bp calls1 res1, fadd res1 (fdiv (Fin 1) (pow15 (int c))))
                else (calls1, b1, res1));
             res3 = (if fless res2 (Fin (1 / 10 ^ 4)) then fadd res2 (Fin (1 / 10 ^ 4)) else res2);
             bu1 = (if \<bar>n_communities b2 - n_clusters\<bar> \<le> \<bar>n_communities bu - n_clusters\<bar>
                    then b2 else bu)
         in if n_communities bu1 = n_clusters then (calls2, bu1)
            else louvain_while bp n_clusters calls2 res3 b2 bu1 (Suc c))
      else (calls, bu))"
  by pat_completeness auto
termination
  by (relation "measure (\<lambda>(bp, n_clusters, calls, res, b, bu, c). 500 - c)") auto

declare louvain_while.simps [simp del]

text \<open>
  One pass of \<^verbatim>\<open>for repeat in range(0,3)\<close>: the default resolution, the first
  partition, the search, and \<^verbatim>\<open>list_cluster\<close>.
\<close>

definition louvain_repeat ::
  "(nat \<Rightarrow> pyfloat \<Rightarrow> partition) \<Rightarrow> int \<Rightarrow> nat \<Rightarrow> nat \<times> string list"
where
  "louvain_repeat bp n_clusters calls =
     (let res = fdiv (Fin 100) (pow15 n_clusters);
          b = bp calls res;
          (calls1, bu) = louvain_while bp n_clusters (Suc calls) res b b 1
      in (calls1, map (\<lambda>(i, comm). str_nat comm) bu))"

definition in_group_lines :: "line list \<Rightarrow> string list \<Rightarrow> line list" where
  "in_group_lines ls buses_i = filter (\<lambda>l. bus0 l \<in> set buses_i \<and> bus1 l \<in> set buses_i) ls"

definition louvain_graph :: "line list \<Rightarrow> string list \<Rightarrow> graph" where
  "louvain_graph ls buses_i =
     (buses_i,
      map (\<lambda>l. (bus0 l, bus1 l, fadd (fdiv (Fin 1) (line_x l)) (Fin (1 / 10))))
        (in_group_lines ls buses_i))"

text \<open>
  \<^verbatim>\<open>busmap_by_louvain(network, n_clusters, buses_i)\<close>; the network comes back with
  the lines as \<^verbatim>\<open>calculate_dependent_values\<close> left them.  Each of the three passes
  overwrites \<^verbatim>\<open>list_cluster\<close>; the value returned is the third pass's.  With
  \<^verbatim>\<open>community\<close> unbound, the first \<^verbatim>\<open>community.best_partition\<close> (line 298) raises
  \<^verbatim>\<open>NameError\<close>.
\<close>

definition busmap_by_louvain ::
  "library \<Rightarrow> network \<Rightarrow> int \<Rightarrow> string list \<Rightarrow> network \<times> (error + busmap)"
where
  "busmap_by_louvain lib network n_clusters buses_i =
     (let network1 = network\<lparr>lines := calculate_dependent_values lib network\<rparr>;
          G = louvain_graph (lines network1) buses_i
      in case community lib of
           None \<Rightarrow> (network1, Inl NameError)
         | Some bp \<Rightarrow>
             (let (calls1, list_cluster1) = louvain_repeat (\<lambda>k. bp k G) n_clusters 0;
                  (calls2, list_cluster2) = louvain_repeat (\<lambda>k. bp k G) n_clusters calls1;
                  (calls3, list_cluster3) = louvain_repeat (\<lambda>k. bp k G) n_clusters calls2
              in (network1, make_series list_cluster3 buses_i)))"

text \<open>\<^verbatim>\<open>abs(1j*lines.r)\<close> on one entry of the column.\<close>

fun abs_1j_times :: "pyfloat \<Rightarrow> pyfloat" where
  "abs_1j_times (Fin a) = Fin (cmod (\<i> * complex_of_real a))"
| "abs_1j_times NaN = NaN"
| "abs_1j_times _ = PInf"

definition newman_graph :: "line list \<Rightarrow> string list \<Rightarrow> graph" where
  "newman_graph ls buses_i =
     (buses_i,
      map (\<lambda>l. (bus0 l, bus1 l, fdiv (s_nom l) (abs_1j_times (line_r l))))
        (in_group_lines ls buses_i))"

text \<open>
  The labelling loop of \<^verbatim>\<open>busmap_by_newman\<close>:
  \<^verbatim>\<open>for c in np.arange(len(output)): busmap.loc[output[c]] = str(c)\<close>; a node that is
  not in the index is a \<^verbatim>\<open>KeyError\<close>.
\<close>

fun newman_label :: "string list list \<Rightarrow> nat \<Rightarrow> busmap \<Rightarrow> error + busmap" where
  "newman_label [] c bm = Inr bm"
| "newman_label (comm # output) c bm =
     (if \<not> set comm \<subseteq> set (map fst bm) then Inl KeyError
      else newman_label output (Suc c)
             (map (\<lambda>(k, v). (k, if k \<in> set comm then str_nat c else v)) bm))"

definition busmap_by_newman ::
  "library \<Rightarrow> network \<Rightarrow> int \<Rightarrow> string list \<Rightarrow> network \<times> (error + busmap)"
where
  "busmap_by_newman lib n n_clusters buses_i =
     (let n1 = n\<lparr>lines := calculate_dependent_values lib n\<rparr>;
          G = newman_graph (lines n1) buses_i;
          output = greedy_modularity lib G n_clusters
      in (n1, newman_label output 0 (map (\<lambda>b. (b, b)) buses_i)))"

section \<open>The busmap builder\<close>

text \<open>\<^verbatim>\<open>prefix + series\<close>: the prefix in front of every label.\<close>

definition add_prefix :: "string \<Rightarrow> error + busmap \<Rightarrow> error + busmap" where
  "add_prefix prefix res =
     (case res of Inl e \<Rightarrow> Inl e | Inr bm \<Rightarrow> Inr (map (\<lambda>(k, v). (k, prefix @ v)) bm))"

text \<open>\<^verbatim>\<open>n_clusters[x.name]\<close>: the budget of a group; a group without a row raises.\<close>

definition budget_of :: "(group_key, int) series \<Rightarrow> group_key \<Rightarrow> error + int" where
  "budget_of n_clusters k = (case map_of n_clusters k of None \<Rightarrow> Inl KeyError | Some v \<Rightarrow> Inr v)"

text \<open>
  \<^verbatim>\<open>busmap_for_country(x)\<close>; \<^verbatim>\<open>x\<close> is a group of the bus table: its key \<^verbatim>\<open>x.name\<close> and
  its rows.  The function closes over the network, the budget, the algorithm and its
  options; \<open>feature\<close> is \<^verbatim>\<open>snakemake.config['clustering']['feature']\<close>.
\<close>

definition busmap_for_country ::
  "library \<Rightarrow> string \<Rightarrow> string \<Rightarrow> (string \<times> real) list \<Rightarrow> (group_key, int) series \<Rightarrow>
     network \<Rightarrow> group_key \<times> bus list \<Rightarrow> network \<times> (error + busmap)"
where
  "busmap_for_country lib feature algorithm algorithm_kwds n_clusters n x =
     (let prefix = fst (fst x) @ snd (fst x) @ '' '';
          index = map bus_name (snd x)
      in if length (snd x) = 1 then (n, Inr (map (\<lambda>b. (b, prefix @ ''0'')) index))
         else (case weighting_for_country n index of
                 Inl e \<Rightarrow> (n, Inl e)
               | Inr weight \<Rightarrow>
                   if algorithm = ''kmeans'' then
                     (case budget_of n_clusters (fst x) of
                        Inl e \<Rightarrow> (n, Inl e)
                      | Inr k \<Rightarrow>
                          (n, add_prefix prefix
                                (busmap_by_kmeans lib n weight k index algorithm_kwds)))
                   else if algorithm = ''spectral'' then
                     (case budget_of n_clusters (fst x) of
                        Inl e \<Rightarrow> (n, Inl e)
                      | Inr k \<Rightarrow>
                          (n, add_prefix prefix
                                (busmap_by_spectral_clustering lib (reduce_network n (snd x)) k
                                   algorithm_kwds)))
                   else if algorithm = ''hac'' then
                     (case budget_of n_clusters (fst x) of
                        Inl e \<Rightarrow> (n, Inl e)
                      | Inr k \<Rightarrow> (n, add_prefix prefix (busmap_by_hac lib n k index feature)))
                   else if algorithm = ''louvain'' then
                     (case budget_of n_clusters (fst x) of
                        Inl e \<Rightarrow> (n, Inl e)
                      | Inr k \<Rightarrow>
                          (case busmap_by_louvain lib n k index of
                             (n1, res) \<Rightarrow> (n1, add_prefix prefix res)))
                   else if algorithm = ''newman'' then
                     (case budget_of n_clusters (fst x) of
                        Inl e \<Rightarrow> (n, Inl e)
                      | Inr k \<Rightarrow>
                          (case busmap_by_newman lib n k index of
                             (n1, res) \<Rightarrow> (n1, add_prefix prefix res)))
                   else (n, Inl ValueError)))"

text \<open>\<^verbatim>\<open>n.buses.groupby(['country', 'sub_network'], group_keys=False)\<close>\<close>

definition groups :: "network \<Rightarrow> (group_key \<times> bus list) list" where
  "groups n =
     map (\<lambda>k. (k, filter (\<lambda>b. key_of b = k) (buses n))) (remdups (map key_of (buses n)))"

text \<open>
  \<^verbatim>\<open>.apply(busmap_for_country)\<close>: the groups one after the other, the per-group maps
  concatenated; an exception in one group ends the run.
\<close>

fun apply_groups ::
  "(network \<Rightarrow> group_key \<times> bus list \<Rightarrow> network \<times> (error + busmap)) \<Rightarrow> network \<Rightarrow>
     (group_key \<times> bus list) list \<Rightarrow> network \<times> (error + busmap)"
where
  "apply_groups f n [] = (n, Inr [])"
| "apply_groups f n (g # gs) =
     (case f n g of
        (n1, Inl e) \<Rightarrow> (n1, Inl e)
      | (n1, Inr bm) \<Rightarrow>
          (case apply_groups f n1 gs of
             (n2, Inl e) \<Rightarrow> (n2, Inl e)
           | (n2, Inr rest) \<Rightarrow> (n2, Inr (bm @ rest))))"

text \<open>\<^verbatim>\<open>algorithm_kwds.setdefault(key, value)\<close>\<close>

definition setdefault :: "string \<Rightarrow> real \<Rightarrow> (string \<times> real) list \<Rightarrow> (string \<times> real) list" where
  "setdefault k v kwds = (if k \<in> set (map fst kwds) then kwds else kwds @ [(k, v)])"

text \<open>
  \<^verbatim>\<open>busmap_for_n_clusters(n, n_clusters, solver_name, focus_weights, algorithm,
  **algorithm_kwds)\<close>.  The network is mutated in place by the script; here the
  function returns it next to the result.  \<^verbatim>\<open>.squeeze()\<close> turns a one-row result into
  a scalar, on which \<^verbatim>\<open>.rename\<close> is an \<^verbatim>\<open>AttributeError\<close>.
\<close>

definition busmap_for_n_clusters ::
  "(real list \<Rightarrow> pyfloat) \<Rightarrow> library \<Rightarrow> (string \<Rightarrow> solver) \<Rightarrow> string \<Rightarrow> string \<Rightarrow> network \<Rightarrow>
     int \<Rightarrow> string option \<Rightarrow> (string \<times> real) list option \<Rightarrow> string \<Rightarrow> (string \<times> real) list \<Rightarrow>
     network \<times> (error + busmap)"
where
  "busmap_for_n_clusters float_sum lib SolverFactory config_solver feature n n_clusters
       solver_name focus_weights algorithm algorithm_kwds =
     (let kwds = (if algorithm = ''kmeans''
                  then setdefault ''tol'' (1 / 10 ^ 6)
                         (setdefault ''max_iter'' 30000 (setdefault ''n_init'' 1000 algorithm_kwds))
                  else algorithm_kwds);
          n1 = determine_network_topology n
      in case distribute_clusters float_sum SolverFactory config_solver n1 n_clusters
                focus_weights solver_name of
           Inl e \<Rightarrow> (n1, Inl e)
         | Inr budget \<Rightarrow>
             (case apply_groups (busmap_for_country lib feature algorithm kwds budget) n1
                     (groups n1) of
                (n2, Inl e) \<Rightarrow> (n2, Inl e)
              | (n2, Inr bm) \<Rightarrow>
                  if length bm = 1 then (n2, Inl AttributeError) else (n2, Inr bm)))"

section \<open>Clustering for a number of clusters\<close>





section \<open>Auxiliary notions and example inputs\<close>

text \<open>The magnitude of a float.\<close>

definition fabs :: "pyfloat \<Rightarrow> pyfloat" where
  "fabs v = (case v of Fin a \<Rightarrow> Fin \<bar>a\<bar> | NaN \<Rightarrow> NaN | _ \<Rightarrow> PInf)"

text \<open>A group of two buses without conventional generation, storage or load.\<close>

definition net_idle :: network where
  "net_idle = \<lparr>buses = [\<lparr>bus_name = ''b1'', country = ''AA'', sub_network = ''0''\<rparr>,
                          \<lparr>bus_name = ''b2'', country = ''AA'', sub_network = ''0''\<rparr>],
               lines = [], generators = [], storage_units = [], loads = [], links = []\<rparr>"

text \<open>
  Two countries with two buses each, one line and one unit of load per country; the
  sub-networks are not yet determined.  \<open>net_two_labelled\<close> is the same network after
  \<^verbatim>\<open>determine_network_topology\<close>.
\<close>

definition net_two :: network where
  "net_two =
     \<lparr>buses = [\<lparr>bus_name = ''a1'', country = ''AA'', sub_network = []\<rparr>,
               \<lparr>bus_name = ''a2'', country = ''AA'', sub_network = []\<rparr>,
               \<lparr>bus_name = ''b1'', country = ''BB'', sub_network = []\<rparr>,
               \<lparr>bus_name = ''b2'', country = ''BB'', sub_network = []\<rparr>],
      lines = [\<lparr>bus0 = ''a1'', bus1 = ''a2'', line_x = Fin 1, line_r = Fin 1, s_nom = Fin 1\<rparr>,
               \<lparr>bus0 = ''b1'', bus1 = ''b2'', line_x = Fin 1, line_r = Fin 1, s_nom = Fin 1\<rparr>],
      generators = [], storage_units = [],
      loads = [\<lparr>l_bus = ''a1'', p_set_mean = Fin 1\<rparr>, \<lparr>l_bus = ''b1'', p_set_mean = Fin 1\<rparr>],
      links = []\<rparr>"

definition net_two_labelled :: network where
  "net_two_labelled =
     \<lparr>buses = [\<lparr>bus_name = ''a1'', country = ''AA'', sub_network = ''0''\<rparr>,
               \<lparr>bus_name = ''a2'', country = ''AA'', sub_network = ''0''\<rparr>,
               \<lparr>bus_name = ''b1'', country = ''BB'', sub_network = ''1''\<rparr>,
               \<lparr>bus_name = ''b2'', country = ''BB'', sub_network = ''1''\<rparr>],
      lines = [\<lparr>bus0 = ''a1'', bus1 = ''a2'', line_x = Fin 1, line_r = Fin 1, s_nom = Fin 1\<rparr>,
               \<lparr>bus0 = ''b1'', bus1 = ''b2'', line_x = Fin 1, line_r = Fin 1, s_nom = Fin 1\<rparr>],
      generators = [], storage_units = [],
      loads = [\<lparr>l_bus = ''a1'', p_set_mean = Fin 1\<rparr>, \<lparr>l_bus = ''b1'', p_set_mean = Fin 1\<rparr>],
      links = []\<rparr>"

text \<open>
  The solvers of the default configuration.  \<^verbatim>\<open>cbc\<close> (the default \<^verbatim>\<open>solver_name\<close> of
  \<^verbatim>\<open>clustering_for_n_clusters\<close>) is a linear solver without the capability
  \<^verbatim>\<open>quadratic_objective\<close>, so the script falls back to \<^verbatim>\<open>ipopt\<close>.  Ipopt is a continuous
  interior-point solver: it treats the integer variables as continuous and returns the
  optimum of the relaxation with status \<^verbatim>\<open>ok\<close>.  For \<open>net_two\<close> and three clusters the
  shares are \<open>1/2\<close> each, the targets \<open>3/2\<close> each, and the relaxed optimum is \<open>3/2\<close> for
  both groups (objective zero, bounds \<open>[1, 2]\<close> and the sum \<open>3\<close> respected).
\<close>

definition cbc :: solver where
  "cbc = \<lparr>quadratic_objective = False, solve = (\<lambda>m. (False, \<lambda>k. NaN))\<rparr>"

definition ipopt_relaxed :: solver where
  "ipopt_relaxed = \<lparr>quadratic_objective = True, solve = (\<lambda>m. (True, \<lambda>k. Fin (3 / 2)))\<rparr>"

definition solver_factory :: "string \<Rightarrow> solver" where
  "solver_factory s = (if s = ''ipopt'' then ipopt_relaxed else cbc)"

text \<open>
  The float sum of CPython up to version 3.11 on IEEE 754 hardware: \<^verbatim>\<open>sum\<close> starts from
  \<open>0\<close> and adds the values from left to right in double precision, so every partial
  sum is rounded to the nearest binary64 number, ties to the even significand.
  \<open>binade_from\<close> finds the exponent \<open>e\<close> with \<open>2^e \<le> x < 2^(e+1)\<close> of a positive \<open>x\<close>
  (within the fuel, which exceeds the exponent range); below \<open>2^-1022\<close> the spacing
  of the subnormal numbers is used, and a result of \<open>2^1024\<close> or more is an infinity.
  The focus weights handed to it are doubles.
\<close>

fun binade_from :: "nat \<Rightarrow> real \<Rightarrow> int \<Rightarrow> int" where
  "binade_from 0 x e = e"
| "binade_from (Suc fuel) x e =
     (if 2 \<le> x then binade_from fuel (x / 2) (e + 1)
      else if x < 1 then binade_from fuel (x * 2) (e - 1)
      else e)"

definition round_half_even :: "real \<Rightarrow> int" where
  "round_half_even x =
     (let f = \<lfloor>x\<rfloor>; d = x - of_int f
      in if d < 1 / 2 then f else if 1 / 2 < d then f + 1 else if even f then f else f + 1)"

definition pow2 :: "int \<Rightarrow> real" where
  "pow2 k = (if 0 \<le> k then 2 ^ nat k else 1 / 2 ^ nat (- k))"

definition binary64 :: "real \<Rightarrow> pyfloat" where
  "binary64 x =
     (if x = 0 then Fin 0
      else
        (let e = max (binade_from 2200 \<bar>x\<bar> 0) (- 1022);
             q = pow2 (e - 52);
             m = round_half_even (\<bar>x\<bar> / q)
         in if 1024 \<le> e \<or> (e = 1023 \<and> m = 2 ^ 53) then (if x < 0 then NInf else PInf)
            else Fin (if x < 0 then - (of_int m * q) else of_int m * q)))"

definition sum_left_to_right :: "real list \<Rightarrow> pyfloat" where
  "sum_left_to_right ws =
     foldl (\<lambda>acc w. case acc of Fin a \<Rightarrow> binary64 (a + w) | other \<Rightarrow> other) (Fin 0) ws"

text \<open>
  The doubles nearest to the decimals \<open>0.01\<close>, \<open>0.06\<close>, \<open>0.93\<close> and to \<open>0.21\<close>,
  \<open>0.19\<close>, \<open>0.43\<close>, \<open>0.07\<close>, \<open>0.1\<close>, as focus weights of five countries.
\<close>

definition weights_above_one :: "(string \<times> real) list" where
  "weights_above_one =
     [(''AA'', 5764607523034235 / 576460752303423488),
      (''BB'', 1080863910568919 / 18014398509481984),
      (''CC'', 8376695306909123 / 9007199254740992)]"

definition weights_exactly_one :: "(string \<times> real) list" where
  "weights_exactly_one =
     [(''AA'', 7566047373982433 / 36028797018963968),
      (''BB'', 3422735716801577 / 18014398509481984),
      (''CC'', 7746191359077253 / 18014398509481984),
      (''DD'', 1261007895663739 / 18014398509481984),
      (''EE'', 3602879701896397 / 36028797018963968)]"

text \<open>
  A network reducer that keeps one bus per label of the busmap, named by the label,
  and the links of the network.
\<close>

definition one_bus_per_label :: "network \<Rightarrow> busmap \<Rightarrow> reducer_options \<Rightarrow> error + clustering" where
  "one_bus_per_label n bm opts =
     Inr \<lparr>c_network =
            \<lparr>buses = map (\<lambda>l. \<lparr>bus_name = l, country = [], sub_network = []\<rparr>)
                       (remdups (map snd bm)),
             lines = [], generators = [], storage_units = [], loads = [], links = links n\<rparr>,
          c_busmap = bm, c_linemap = []\<rparr>"

text \<open>
  Library routines that put every bus they are given into one cluster \<^verbatim>\<open>'0'\<close> (what
  each of them does when asked for one cluster); \<^verbatim>\<open>community\<close> is unbound, as in the
  module; the reducer is \<open>one_bus_per_label\<close>.
\<close>

definition lib_one :: library where
  "lib_one =
     \<lparr>busmap_by_kmeans = (\<lambda>n weight k buses_i kwds. Inr (map (\<lambda>b. (b, ''0'')) buses_i)),
      busmap_by_spectral_clustering =
        (\<lambda>n k kwds. Inr (map (\<lambda>b. (bus_name b, ''0'')) (buses n))),
      hac_labels = (\<lambda>n k buses_i feature. Inr (map (\<lambda>b. 0) buses_i)),
      community = None,
      greedy_modularity = (\<lambda>G k. [fst G]),
      calculate_dependent_values = lines,
      get_clustering_from_busmap = one_bus_per_label\<rparr>"

text \<open>Finite floats and their values.\<close>

fun fin_value :: "pyfloat \<Rightarrow> real" where
  "fin_value (Fin a) = a"
| "fin_value _ = 0"


text \<open>The number of rows of a country.\<close>

definition rows_of :: "string \<Rightarrow> (group_key, 'v) series \<Rightarrow> nat" where
  "rows_of c L = length (filter (\<lambda>row. fst (fst row) = c) L)"




text \<open>
  Twelve buses in eleven connected components (only \<^verbatim>\<open>q1\<close> and \<^verbatim>\<open>q2\<close> are joined by a
  line), each with one unit of load.  The first bus belongs to a country \<^verbatim>\<open>A1\<close>, the
  last one to a country \<^verbatim>\<open>A\<close>.  \<open>net_clash_labelled\<close> is the network after
  \<^verbatim>\<open>determine_network_topology\<close>.  The solver returns the only feasible allocation of
  eleven clusters to the eleven groups, one each.
\<close>

definition mk_bus :: "string \<Rightarrow> string \<Rightarrow> string \<Rightarrow> bus" where
  "mk_bus b c s = \<lparr>bus_name = b, country = c, sub_network = s\<rparr>"

definition clash_buses :: "bus list" where
  "clash_buses =
     [mk_bus ''p'' ''A1'' [], mk_bus ''q1'' ''ZZ'' [], mk_bus ''q2'' ''ZZ'' [],
      mk_bus ''r2'' ''ZZ'' [], mk_bus ''r3'' ''ZZ'' [], mk_bus ''r4'' ''ZZ'' [],
      mk_bus ''r5'' ''ZZ'' [], mk_bus ''r6'' ''ZZ'' [], mk_bus ''r7'' ''ZZ'' [],
      mk_bus ''r8'' ''ZZ'' [], mk_bus ''r9'' ''ZZ'' [], mk_bus ''t'' ''A'' []]"

definition net_clash :: network where
  "net_clash =
     \<lparr>buses = clash_buses,
      lines = [\<lparr>bus0 = ''q1'', bus1 = ''q2'', line_x = Fin 1, line_r = Fin 1, s_nom = Fin 1\<rparr>],
      generators = [], storage_units = [],
      loads = map (\<lambda>b. \<lparr>l_bus = bus_name b, p_set_mean = Fin 1\<rparr>) clash_buses,
      links = []\<rparr>"

definition clash_labelled :: "bus list" where
  "clash_labelled =
     [mk_bus ''p'' ''A1'' ''0'', mk_bus ''q1'' ''ZZ'' ''1'', mk_bus ''q2'' ''ZZ'' ''1'',
      mk_bus ''r2'' ''ZZ'' ''2'', mk_bus ''r3'' ''ZZ'' ''3'', mk_bus ''r4'' ''ZZ'' ''4'',
      mk_bus ''r5'' ''ZZ'' ''5'', mk_bus ''r6'' ''ZZ'' ''6'', mk_bus ''r7'' ''ZZ'' ''7'',
      mk_bus ''r8'' ''ZZ'' ''8'', mk_bus ''r9'' ''ZZ'' ''9'', mk_bus ''t'' ''A'' ''10'']"

definition net_clash_labelled :: network where
  "net_clash_labelled = net_clash\<lparr>buses := clash_labelled\<rparr>"

definition solver_ones :: solver where
  "solver_ones = \<lparr>quadratic_objective = True, solve = (\<lambda>m. (True, \<lambda>k. Fin 1))\<rparr>"

definition gurobi_factory :: "string \<Rightarrow> solver" where
  "gurobi_factory s = solver_ones"

definition clash_busmap :: busmap where
  "clash_busmap =
     [(''p'', ''A10 0''), (''q1'', ''ZZ1 0''), (''q2'', ''ZZ1 0''), (''r2'', ''ZZ2 0''),
      (''r3'', ''ZZ3 0''), (''r4'', ''ZZ4 0''), (''r5'', ''ZZ5 0''), (''r6'', ''ZZ6 0''),
      (''r7'', ''ZZ7 0''), (''r8'', ''ZZ8 0''), (''r9'', ''ZZ9 0''), (''t'', ''A10 0'')]"

definition clash_budget :: "(group_key, int) series" where
  "clash_budget =
     [((''A1'', ''0''), 1), ((''ZZ'', ''1''), 1), ((''ZZ'', ''2''), 1), ((''ZZ'', ''3''), 1),
      ((''ZZ'', ''4''), 1), ((''ZZ'', ''5''), 1), ((''ZZ'', ''6''), 1), ((''ZZ'', ''7''), 1),
      ((''ZZ'', ''8''), 1), ((''ZZ'', ''9''), 1), ((''A'', ''10''), 1)]"

text \<open>
  What PyPSA's \<^verbatim>\<open>busmap_by_kmeans\<close> and \<^verbatim>\<open>busmap_by_spectral_clustering\<close> promise
  about the index of their result: it is the list of buses they were given
  (\<^verbatim>\<open>buses_i\<close>, respectively the buses of the reduced network).
\<close>

definition keeps_index :: "library \<Rightarrow> bool" where
  "keeps_index lib =
     ((\<forall>n weight k buses_i kwds bm.
          busmap_by_kmeans lib n weight k buses_i kwds = Inr bm \<longrightarrow> map fst bm = buses_i)
      \<and> (\<forall>n k kwds bm.
          busmap_by_spectral_clustering lib n k kwds = Inr bm \<longrightarrow>
            map fst bm = map bus_name (buses n)))"

text \<open>
  The labels a busmap gives to the buses of a group, and what it means for a label to
  carry the prefix of a group key.
\<close>

definition group_labels :: "busmap \<Rightarrow> bus list \<Rightarrow> string list" where
  "group_labels bm bs = map snd (filter (\<lambda>row. fst row \<in> set (map bus_name bs)) bm)"

definition prefixed :: "group_key \<Rightarrow> string \<Rightarrow> bool" where
  "prefixed k v = (\<exists>l. v = fst k @ snd k @ '' '' @ l)"

text \<open>
  A binding for \<^verbatim>\<open>community.best_partition\<close> whose first call puts every node into a
  community of its own and whose later calls put all nodes into one community.
\<close>

definition partition_once :: "nat \<Rightarrow> graph \<Rightarrow> pyfloat \<Rightarrow> partition" where
  "partition_once k G res =
     (if k = 0 then zip (fst G) [0..<length (fst G)] else map (\<lambda>v. (v, 0)) (fst G))"

text \<open>
  What the optimisation model of \<^verbatim>\<open>distribute_clusters\<close> asks of a solution: every
  variable is an integer between \<open>1\<close> and its upper bound (the size of the group), and
  the variables sum to the requested total (the constraint \<^verbatim>\<open>m.tot\<close>).  A solver factory
  is \<open>honest\<close> when each of its solvers reports \<^verbatim>\<open>ok\<close> only with such a solution.
\<close>

definition feasible :: "model \<Rightarrow> (group_key \<Rightarrow> pyfloat) \<Rightarrow> bool" where
  "feasible m vals =
     ((\<forall>v \<in> set (m_vars m).
         \<exists>i. vals (v_key v) = Fin (real_of_int i) \<and> 1 \<le> i \<and> i \<le> int (v_upper v))
      \<and> (\<Sum>v\<leftarrow>m_vars m. fin_value (vals (v_key v))) = real_of_int (m_total m))"

definition honest :: "(string \<Rightarrow> solver) \<Rightarrow> bool" where
  "honest SolverFactory =
     (\<forall>s m vals. solve (SolverFactory s) m = (True, vals) \<longrightarrow> feasible m vals)"

text \<open>
  A solver that proposes one cluster per group and reports \<^verbatim>\<open>ok\<close> only if that meets the
  model.
\<close>

definition checked_ones :: solver where
  "checked_ones =
     \<lparr>quadratic_objective = True,
      solve = (\<lambda>m. if feasible m (\<lambda>k. Fin 1) then (True, \<lambda>k. Fin 1) else (False, \<lambda>k. NaN))\<rparr>"

definition checking_factory :: "string \<Rightarrow> solver" where
  "checking_factory s = checked_ones"

text \<open>
  The resolution handed to \<^verbatim>\<open>community.best_partition\<close> is meant to be positive.
\<close>

definition fpos :: "pyfloat \<Rightarrow> bool" where
  "fpos v = (case v of Fin a \<Rightarrow> 0 < a | PInf \<Rightarrow> True | _ \<Rightarrow> False)"

text \<open>
  The intermediate table \<^verbatim>\<open>gen\<close> of \<^verbatim>\<open>weighting_for_country\<close>, the value a table of
  floats holds at a label (\<open>0\<close> where the label has no row), and the floats that are
  finite and not negative.
\<close>

definition gen_table :: "network \<Rightarrow> (string, pyfloat) series" where
  "gen_table n =
     map2 (\<lambda>(b, u) (_, v). (b, fadd u v))
       (conv_p_nom (generators n) (map bus_name (buses n)))
       (conv_p_nom (storage_units n) (map bus_name (buses n)))"

definition value_at :: "('k, pyfloat) series \<Rightarrow> 'k \<Rightarrow> real" where
  "value_at s k = fin_value (case map_of s k of Some v \<Rightarrow> v | None \<Rightarrow> Fin 0)"

definition nonneg :: "pyfloat \<Rightarrow> bool" where
  "nonneg v = (case v of Fin a \<Rightarrow> 0 \<le> a | _ \<Rightarrow> False)"

section \<open>Node weighting: results\<close>

text \<open>
  C3 (all-zero group).  A group of two buses with no conventional generation, no
  storage and no load: both normalised columns are all zero, the maximum is zero, the
  rescaling multiplies zero by infinity, and the integer conversion of the resulting
  NaN raises \<^verbatim>\<open>ValueError\<close>.  The function is not total on non-empty groups.
\<close>

theorem weighting_for_country_all_zero_raises:
  "weighting_for_country net_idle [''b1'', ''b2''] = Inl ValueError"
  by (simp add: weighting_for_country_def net_idle_def conv_p_nom_def bus_load_def
      reindex_def normed_def series_sum_def series_max_def is_nan_def fillna_def
      clip_lower_def astype_int_def)

section \<open>Evaluating the example network\<close>

lemma str_nat_0: "str_nat 0 = ''0''"
  by (simp add: str_nat.simps digit_char_def)

lemma str_nat_1: "str_nat (Suc 0) = ''1''"
  by (simp add: str_nat.simps digit_char_def)

lemma topology_net_two: "determine_network_topology net_two = net_two_labelled"
  by (simp add: determine_network_topology_def net_two_def net_two_labelled_def
      numeral_eq_Suc str_nat_0 str_nat_1)

lemma load_share_net_two:
  "load_share net_two_labelled = [((''AA'', ''0''), Fin (1 / 2)), ((''BB'', ''1''), Fin (1 / 2))]"
  by (simp add: load_share_def load_rows_def bus_load_def net_two_labelled_def key_of_def
      normed_def series_sum_def is_nan_def fillna_def)

lemma group_sizes_net_two:
  "group_sizes net_two_labelled = [((''AA'', ''0''), 2), ((''BB'', ''1''), 2)]"
  by (simp add: group_sizes_def net_two_labelled_def key_of_def)

lemma budget_net_two:
  "distribute_clusters float_sum solver_factory ''glpk'' net_two_labelled 3 None (Some ''cbc'')
     = Inr [((''AA'', ''0''), 1), ((''BB'', ''1''), 1)]"
  by (simp add: distribute_clusters_def load_share_net_two group_sizes_net_two
      adjusted_share_def series_sum_def is_nan_def isclose_def build_model_def
      solver_factory_def cbc_def ipopt_relaxed_def astype_int_def trunc_def)

lemma weighting_net_two_a:
  "weighting_for_country net_two_labelled [''a1'', ''a2''] = Inr [(''a1'', 100), (''a2'', 1)]"
  by (simp add: weighting_for_country_def net_two_labelled_def conv_p_nom_def bus_load_def
      reindex_def normed_def series_sum_def series_max_def is_nan_def fillna_def
      clip_lower_def astype_int_def trunc_def)

lemma weighting_net_two_b:
  "weighting_for_country net_two_labelled [''b1'', ''b2''] = Inr [(''b1'', 100), (''b2'', 1)]"
  by (simp add: weighting_for_country_def net_two_labelled_def conv_p_nom_def bus_load_def
      reindex_def normed_def series_sum_def series_max_def is_nan_def fillna_def
      clip_lower_def astype_int_def trunc_def)

lemma groups_net_two:
  "groups net_two_labelled =
     [((''AA'', ''0''), [\<lparr>bus_name = ''a1'', country = ''AA'', sub_network = ''0''\<rparr>,
                        \<lparr>bus_name = ''a2'', country = ''AA'', sub_network = ''0''\<rparr>]),
      ((''BB'', ''1''), [\<lparr>bus_name = ''b1'', country = ''BB'', sub_network = ''1''\<rparr>,
                        \<lparr>bus_name = ''b2'', country = ''BB'', sub_network = ''1''\<rparr>])]"
  by (simp add: groups_def net_two_labelled_def key_of_def)

lemma busmap_net_two:
  "busmap_for_n_clusters float_sum lib_one solver_factory ''glpk'' ''solar-cap'' net_two 3 (Some ''cbc'')
       None ''kmeans'' []
     = (net_two_labelled,
        Inr [(''a1'', ''AA0 0''), (''a2'', ''AA0 0''), (''b1'', ''BB1 0''), (''b2'', ''BB1 0'')])"
  by (simp add: busmap_for_n_clusters_def topology_net_two budget_net_two groups_net_two
      busmap_for_country_def weighting_net_two_a weighting_net_two_b budget_of_def
      lib_one_def add_prefix_def)



lemma topology_net_clash:
  "determine_network_topology net_clash = net_clash_labelled"
  by code_simp

lemma budget_net_clash:
  "distribute_clusters float_sum gurobi_factory ''gurobi'' (net_clash_labelled) 11
       None (Some ''gurobi'') = Inr clash_budget"
  by code_simp

lemma groups_net_clash:
  "groups (net_clash_labelled) =
     [((''A1'', ''0''), [mk_bus ''p'' ''A1'' ''0'']),
      ((''ZZ'', ''1''), [mk_bus ''q1'' ''ZZ'' ''1'', mk_bus ''q2'' ''ZZ'' ''1'']),
      ((''ZZ'', ''2''), [mk_bus ''r2'' ''ZZ'' ''2'']),
      ((''ZZ'', ''3''), [mk_bus ''r3'' ''ZZ'' ''3'']),
      ((''ZZ'', ''4''), [mk_bus ''r4'' ''ZZ'' ''4'']),
      ((''ZZ'', ''5''), [mk_bus ''r5'' ''ZZ'' ''5'']),
      ((''ZZ'', ''6''), [mk_bus ''r6'' ''ZZ'' ''6'']),
      ((''ZZ'', ''7''), [mk_bus ''r7'' ''ZZ'' ''7'']),
      ((''ZZ'', ''8''), [mk_bus ''r8'' ''ZZ'' ''8'']),
      ((''ZZ'', ''9''), [mk_bus ''r9'' ''ZZ'' ''9'']),
      ((''A'', ''10''), [mk_bus ''t'' ''A'' ''10''])]"
  by code_simp

lemma weighting_net_clash:
  "weighting_for_country (net_clash_labelled) [''q1'', ''q2'']
     = Inr [(''q1'', 100), (''q2'', 100)]"
  by code_simp

lemma busmap_net_clash:
  "busmap_for_n_clusters float_sum lib_one gurobi_factory ''gurobi'' ''solar-cap'' net_clash 11
       (Some ''gurobi'') None ''kmeans'' []
     = (net_clash_labelled, Inr clash_busmap)"
  by (simp add: busmap_for_n_clusters_def topology_net_clash budget_net_clash groups_net_clash
      busmap_for_country_def weighting_net_clash budget_of_def clash_budget_def clash_busmap_def
      lib_one_def add_prefix_def mk_bus_def)

section \<open>Cluster allocation: results\<close>

text \<open>
  C1 (budget does not sum to the request).  For \<open>net_two\<close> and three clusters with the
  solver \<^verbatim>\<open>cbc\<close>, the script falls back to \<^verbatim>\<open>ipopt\<close>, which answers \<open>3/2\<close> for both
  groups with status \<^verbatim>\<open>ok\<close>; \<^verbatim>\<open>astype(int)\<close> truncates both to \<open>1\<close>, and the returned
  budget sums to \<open>2\<close>, not to the \<open>3\<close> clusters requested.
\<close>

theorem distribute_clusters_truncates_relaxed_solution:
  "distribute_clusters float_sum solver_factory ''glpk'' net_two_labelled 3 None (Some ''cbc'')
     = Inr [((''AA'', ''0''), 1), ((''BB'', ''1''), 1)]
   \<and> sum_list (map snd [((''AA'', ''0''), 1 :: int), ((''BB'', ''1''), 1)]) = 2"
  by (simp add: distribute_clusters_def load_share_net_two group_sizes_net_two
      adjusted_share_def series_sum_def is_nan_def isclose_def build_model_def
      solver_factory_def cbc_def ipopt_relaxed_def astype_int_def trunc_def)


lemma foldl_fadd_Fin: "foldl fadd (Fin a) (map Fin xs) = Fin (a + sum_list xs)"
  by (induction xs arbitrary: a) (simp_all add: add.assoc)

lemma series_sum_Fin: "series_sum (map Fin xs) = Fin (sum_list xs)"
proof -
  have "filter (\<lambda>v. \<not> is_nan v) (map Fin xs) = map Fin xs"
    by (induction xs) (simp_all add: is_nan_def)
  then show ?thesis
    by (simp add: series_sum_def foldl_fadd_Fin)
qed

lemma rows_of_map [simp]: "rows_of c (map (\<lambda>row. (fst row, h row)) L) = rows_of c L"
  by (induction L) (simp_all add: rows_of_def)











lemma sum_left_to_right_quarter: "sum_left_to_right [1 / 4] = Fin (1 / 4)"
  by code_simp

lemma sum_left_to_right_quarters: "sum_left_to_right [1 / 4, 1 / 4] = Fin (1 / 2)"
  by code_simp

lemma float_sum_above_one:
  "sum_left_to_right (map snd weights_above_one) = Fin 1
   \<and> 1 < sum_list (map snd weights_above_one)"
  unfolding weights_above_one_def by code_simp

lemma float_sum_exactly_one:
  "sum_left_to_right (map snd weights_exactly_one) = Fin (1 + 1 / 2 ^ 52)
   \<and> sum_list (map snd weights_exactly_one) = 1"
  unfolding weights_exactly_one_def by code_simp


lemma focus_loop_error: "focus_loop fw L = Inl e \<Longrightarrow> e = KeyError"
  by (induction fw L rule: focus_loop.induct) (auto simp add: Let_def split: if_splits)

lemma adjusted_share_error:
  "adjusted_share float_sum focus_weights L = Inl e \<Longrightarrow>
     (if \<exists>fw. focus_weights = Some fw \<and> \<not> fle (float_sum (map snd fw)) (Fin 1)
      then e = AssertionError FocusSum else e = KeyError)"
  by (auto simp add: adjusted_share_def Let_def split: option.splits if_splits sum.splits
      dest: focus_loop_error)

lemma adjusted_share_focus_sum:
  "focus_weights = Some fw \<Longrightarrow> \<not> fle (float_sum (map snd fw)) (Fin 1) \<Longrightarrow>
     adjusted_share float_sum focus_weights L = Inl (AssertionError FocusSum)"
  by (simp add: adjusted_share_def Let_def)

text \<open>
  The assertion \<^verbatim>\<open>total_focus <= 1.0\<close> follows the float sum, not the exact one.  The
  doubles of \<open>0.01\<close>, \<open>0.06\<close>, \<open>0.93\<close> sum to more than 1, but their float sum is
  \<open>1.0\<close> and the assertion passes; the doubles of \<open>0.21\<close>, \<open>0.19\<close>, \<open>0.43\<close>,
  \<open>0.07\<close>, \<open>0.1\<close> sum to exactly 1, but their float sum is \<open>1.0000000000000002\<close> and
  the assertion fails.
\<close>

lemma focus_assertion_follows_float_sum:
  "adjusted_share sum_left_to_right (Some weights_above_one) L \<noteq> Inl (AssertionError FocusSum)
   \<and> adjusted_share sum_left_to_right (Some weights_exactly_one) L
       = Inl (AssertionError FocusSum)"
proof -
  have a: "fle (sum_left_to_right (map snd weights_above_one)) (Fin 1)"
    using float_sum_above_one by simp
  have b: "\<not> fle (sum_left_to_right (map snd weights_exactly_one)) (Fin 1)"
    using float_sum_exactly_one by simp
  have "focus_loop fw L \<noteq> Inl (AssertionError FocusSum)" for fw
    using focus_loop_error[of fw L "AssertionError FocusSum"] by auto
  then show ?thesis
    using a b by (auto simp add: adjusted_share_def Let_def split: sum.splits)
qed

lemma mapM_error:
  assumes "\<And>x e. f x = Inl e \<Longrightarrow> e = e0"
  shows "mapM f xs = Inl e \<Longrightarrow> e = e0"
  by (induction xs arbitrary: e) (auto split: sum.splits dest: assms)

lemma build_model_error: "build_model N L k = Inl e \<Longrightarrow> e = KeyError"
  unfolding build_model_def
  by (auto split: sum.splits dest!: mapM_error[where ?e0.0=KeyError, rotated] split: option.splits)

lemma astype_int_error: "astype_int s = Inl e \<Longrightarrow> e = ValueError"
  unfolding astype_int_def
  by (erule mapM_error[where ?e0.0=ValueError, rotated])
     (auto split: sum.splits elim: astype_int1.elims)

text \<open>
  C7 (as the code has it).  \<^verbatim>\<open>distribute_clusters\<close> has four assertions, and each
  fails exactly under its own condition: the first when the number of clusters is
  outside the range from the number of groups to the number of buses; the second when
  the number is in range and a focus-weight mapping is given whose float sum
  \<^verbatim>\<open>total_focus\<close> is not \<^verbatim>\<open><= 1.0\<close>; the third when the number is in range, the focus
  override went through and the adjusted shares do not sum to 1 within \<open>1e-3\<close>; the
  fourth when all that held, the model was built and the solver's status is not
  \<^verbatim>\<open>ok\<close>.  All four raise \<^verbatim>\<open>AssertionError\<close>.
\<close>

theorem precondition_checks_exact:
  "(distribute_clusters float_sum SolverFactory config_solver n n_clusters focus_weights
      solver_name = Inl (AssertionError ClusterRange))
     = (\<not> (int (length (group_sizes n)) \<le> n_clusters
           \<and> n_clusters \<le> int (sum_list (map snd (group_sizes n)))))
   \<and> (distribute_clusters float_sum SolverFactory config_solver n n_clusters focus_weights
      solver_name = Inl (AssertionError FocusSum))
     = (int (length (group_sizes n)) \<le> n_clusters
        \<and> n_clusters \<le> int (sum_list (map snd (group_sizes n)))
        \<and> (\<exists>fw. focus_weights = Some fw \<and> \<not> fle (float_sum (map snd fw)) (Fin 1)))
   \<and> (distribute_clusters float_sum SolverFactory config_solver n n_clusters focus_weights
      solver_name = Inl (AssertionError WeightSum))
     = (int (length (group_sizes n)) \<le> n_clusters
        \<and> n_clusters \<le> int (sum_list (map snd (group_sizes n)))
        \<and> (\<exists>L. adjusted_share float_sum focus_weights (load_share n) = Inr L
                \<and> \<not> isclose (series_sum (map snd L)) 1 (1 / 10 ^ 3)))
   \<and> (distribute_clusters float_sum SolverFactory config_solver n n_clusters focus_weights
      solver_name = Inl (AssertionError SolverStatus))
     = (int (length (group_sizes n)) \<le> n_clusters
        \<and> n_clusters \<le> int (sum_list (map snd (group_sizes n)))
        \<and> (\<exists>L m. adjusted_share float_sum focus_weights (load_share n) = Inr L
                \<and> isclose (series_sum (map snd L)) 1 (1 / 10 ^ 3)
                \<and> build_model (group_sizes n) L n_clusters = Inr m
                \<and> \<not> fst (solve
                           (if \<not> quadratic_objective
                                   (SolverFactory (case solver_name of
                                                     None \<Rightarrow> config_solver | Some s \<Rightarrow> s))
                            then SolverFactory ''ipopt''
                            else SolverFactory (case solver_name of
                                                  None \<Rightarrow> config_solver | Some s \<Rightarrow> s))
                           m)))"
proof (cases "int (length (group_sizes n)) \<le> n_clusters
           \<and> n_clusters \<le> int (sum_list (map snd (group_sizes n)))")
  case False
  then show ?thesis by (auto simp add: distribute_clusters_def Let_def)
next
  case True
  show ?thesis
  proof (cases "adjusted_share float_sum focus_weights (load_share n)")
    case (Inl e)
    from adjusted_share_error[OF Inl] True Inl show ?thesis
      by (auto simp add: distribute_clusters_def Let_def split: if_splits)
  next
    case (Inr L)
    have no: "\<not> (\<exists>fw. focus_weights = Some fw \<and> \<not> fle (float_sum (map snd fw)) (Fin 1))"
      using Inr adjusted_share_focus_sum by fastforce
    show ?thesis
    proof (cases "isclose (series_sum (map snd L)) 1 (1 / 10 ^ 3)")
      case False
      with True Inr no show ?thesis
        by (auto simp add: distribute_clusters_def Let_def)
    next
      case close: True
      show ?thesis
      proof (cases "build_model (group_sizes n) L n_clusters")
        case (Inl e)
        from build_model_error[OF Inl] True Inr no close Inl show ?thesis
          by (auto simp add: distribute_clusters_def Let_def)
      next
        case m: (Inr m)
        from True Inr no close m show ?thesis
          by (auto simp add: distribute_clusters_def Let_def dest: astype_int_error)
      qed
    qed
  qed
qed



text \<open>
  C7 (as the claim states it) fails: with both preconditions met, the allocator
  still ends in an \<^verbatim>\<open>AssertionError\<close>, the exception of all its checks: at the
  assertion that the adjusted shares sum to 1 (focus weights of a quarter for each
  country of \<open>net_two\<close>), and at the assertion on the solver's status (no focus
  weights, every solver name bound to a solver that reports a failure).
\<close>

theorem assertion_error_with_preconditions_met:
  "int (length (group_sizes net_two_labelled)) \<le> 3
   \<and> 3 \<le> int (sum_list (map snd (group_sizes net_two_labelled)))
   \<and> fle (sum_left_to_right (map snd [(''AA'', 1 / 4 :: real), (''BB'', 1 / 4)])) (Fin 1)
   \<and> distribute_clusters sum_left_to_right solver_factory ''glpk'' net_two_labelled 3
        (Some [(''AA'', 1 / 4), (''BB'', 1 / 4)]) (Some ''cbc'')
       = Inl (AssertionError WeightSum)
   \<and> distribute_clusters sum_left_to_right (\<lambda>s. cbc) ''glpk'' net_two_labelled 3
        None (Some ''cbc'')
       = Inl (AssertionError SolverStatus)"
  by (simp add: distribute_clusters_def group_sizes_net_two adjusted_share_def
      load_share_net_two renormalise_remainder_def normed_def build_model_def cbc_def
      series_sum_def is_nan_def isclose_def sum_left_to_right_quarter sum_left_to_right_quarters)

section \<open>Clustering strategies: results\<close>

lemma louvain_unbound_community:
  "snd (busmap_by_louvain (lib\<lparr>community := None\<rparr>) network n_clusters buses_i) = Inl NameError"
  by (simp add: busmap_by_louvain_def Let_def)

lemma louvain_while_stuck:
  assumes bp: "\<And>k r. k0 \<le> k \<Longrightarrow> bp k r = P"
    and low: "n_communities P < n_clusters"
  shows "k0 \<le> calls \<Longrightarrow> snd (louvain_while bp n_clusters calls res P P c) = P"
proof (induction "500 - c" arbitrary: c calls res)
  case 0
  then have "\<not> c < 500" by simp
  then show ?case by (subst louvain_while.simps) simp
next
  case (Suc d)
  then have c: "c < 500" and d: "d = 500 - Suc c" by simp_all
  from low have ne: "n_communities P \<noteq> n_clusters" by simp
  have step: "bp calls res = P" using Suc.prems by (rule bp)
  let ?res1 = "fdiv res (Fin (real (c ^ 2)))"
  let ?res3 = "if fless ?res1 (Fin (1 / 10 ^ 4)) then fadd ?res1 (Fin (1 / 10 ^ 4)) else ?res1"
  have "louvain_while bp n_clusters calls res P P c
      = louvain_while bp n_clusters (Suc calls) ?res3 P P (Suc c)"
    using c ne low step by (subst louvain_while.simps) (simp add: Let_def)
  moreover have "snd (louvain_while bp n_clusters (Suc calls) ?res3 P P (Suc c)) = P"
    using Suc.prems by (intro Suc.hyps(1)[OF d]) simp
  ultimately show ?case by simp
qed

lemma louvain_while_calls:
  "calls \<le> fst (louvain_while bp n_clusters calls res b bu c)
   \<and> fst (louvain_while bp n_clusters calls res b bu c) \<le> calls + 2 * (500 - c)"
proof (induction "500 - c" arbitrary: c calls res b bu)
  case 0
  then have "\<not> c < 500" by simp
  then show ?case by (subst (1 2) louvain_while.simps) simp
next
  case (Suc d)
  then have c: "c < 500" and d: "d = 500 - Suc c" by simp_all
  note IH = Suc.hyps(1)[OF d]
  show ?case
  proof (cases "n_communities b \<noteq> n_clusters")
    case False
    then show ?thesis by (subst (1 2) louvain_while.simps) simp
  next
    case True
    obtain calls1 b1 res1 where s1: "(calls1, b1, res1) =
               (if n_communities b < n_clusters
                then (Suc calls, bp calls res, fdiv res (Fin (real (c ^ 2))))
                else (calls, b, res))" by (metis prod_cases3)
    obtain calls2 b2 res2 where s2: "(calls2, b2, res2) =
               (if n_communities b1 > n_clusters
                then (Suc calls1, bp calls1 res1, fadd res1 (fdiv (Fin 1) (pow15 (int c))))
                else (calls1, b1, res1))" by (metis prod_cases3)
    define res3 where "res3 = (if fless res2 (Fin (1 / 10 ^ 4)) then fadd res2 (Fin (1 / 10 ^ 4)) else res2)"
    define bu1 where "bu1 = (if \<bar>n_communities b2 - n_clusters\<bar> \<le> \<bar>n_communities bu - n_clusters\<bar>
                    then b2 else bu)"
    have unfold: "louvain_while bp n_clusters calls res b bu c
        = (if n_communities bu1 = n_clusters then (calls2, bu1)
           else louvain_while bp n_clusters calls2 res3 b2 bu1 (Suc c))"
      using True c
      by (subst louvain_while.simps)
         (simp add: Let_def s1[symmetric] s2[symmetric] res3_def bu1_def)
    from s1 have c1: "calls \<le> calls1 \<and> calls1 \<le> Suc calls" by (auto split: if_splits)
    from s2 have c2: "calls1 \<le> calls2 \<and> calls2 \<le> Suc calls1" by (auto split: if_splits)
    from IH[of calls2 res3 b2 bu1] c1 c2 c show ?thesis
      unfolding unfold by auto
  qed
qed

lemma louvain_third_pass_wins:
  "snd (busmap_by_louvain (lib_one\<lparr>community := Some partition_once\<rparr>) net_two_labelled 2
          [''a1'', ''a2''])
     = Inr [(''a1'', ''0''), (''a2'', ''0'')]
   \<and> n_communities
         (partition_once 0 (louvain_graph (lines net_two_labelled) [''a1'', ''a2''])
            (fdiv (Fin 100) (pow15 2))) = 2"
proof -
  define G where "G = louvain_graph (lines net_two_labelled) [''a1'', ''a2'']"
  define bp where "bp = (\<lambda>k. partition_once k G)"
  define P1 :: partition where "P1 = [(''a1'', 0), (''a2'', 0)]"
  define P2 :: partition where "P2 = [(''a1'', 0), (''a2'', Suc 0)]"
  define res0 where "res0 = fdiv (Fin 100) (pow15 2)"
  have G: "fst G = [''a1'', ''a2'']" by (simp add: G_def louvain_graph_def)
  have bp0: "bp 0 r = P2" for r
    by (simp add: bp_def partition_once_def G P2_def upt_rec)
  have bpk: "1 \<le> k \<Longrightarrow> bp k r = P1" for k r
    by (simp add: bp_def partition_once_def G P1_def)
  have n2: "n_communities P2 = 2" by (simp add: n_communities_def P2_def)
  have n1: "n_communities P1 < 2" by (simp add: n_communities_def P1_def)
  have hit: "louvain_while bp 2 (Suc 0) r P2 P2 1 = (Suc 0, P2)" for r
    by (subst louvain_while.simps) (simp add: n2)
  have first: "louvain_repeat bp 2 0 = (Suc 0, [''0'', ''1''])"
    unfolding louvain_repeat_def Let_def bp0 hit
    by (simp add: P2_def str_nat_0 str_nat_1)
  have later: "1 \<le> calls \<Longrightarrow> snd (louvain_repeat bp 2 calls) = [''0'', ''0'']
                 \<and> 1 \<le> fst (louvain_repeat bp 2 calls)" for calls
  proof -
    assume calls: "1 \<le> calls"
    have "snd (louvain_while bp 2 (Suc calls) res0 P1 P1 1) = P1"
      using calls by (intro louvain_while_stuck[where ?k0.0 = 1] bpk n1) simp_all
    moreover have "Suc calls \<le> fst (louvain_while bp 2 (Suc calls) res0 P1 P1 1)"
      using louvain_while_calls[of "Suc calls" bp 2 res0 P1 P1 1] by simp
    ultimately show ?thesis
      using calls
      by (simp add: louvain_repeat_def Let_def bpk res0_def case_prod_unfold P1_def str_nat_0)
  qed
  from later[of "Suc 0"] have second: "1 \<le> fst (louvain_repeat bp 2 (Suc 0))" by simp
  from later[OF second] have third: "snd (louvain_repeat bp 2 (fst (louvain_repeat bp 2 (Suc 0))))
      = [''0'', ''0'']" by simp
  have "snd (busmap_by_louvain (lib_one\<lparr>community := Some partition_once\<rparr>) net_two_labelled 2
          [''a1'', ''a2''])
     = make_series (snd (louvain_repeat bp 2 (fst (louvain_repeat bp 2
         (fst (louvain_repeat bp 2 0)))))) [''a1'', ''a2'']"
    by (simp add: busmap_by_louvain_def Let_def lib_one_def case_prod_unfold bp_def G_def)
  then have "snd (busmap_by_louvain (lib_one\<lparr>community := Some partition_once\<rparr>) net_two_labelled 2
          [''a1'', ''a2'']) = Inr [(''a1'', ''0''), (''a2'', ''0'')]"
    by (simp add: first third make_series_def)
  moreover have "n_communities (partition_once 0 G (fdiv (Fin 100) (pow15 2))) = 2"
    using bp0[of "fdiv (Fin 100) (pow15 2)"] n2 by (simp add: bp_def)
  ultimately show ?thesis by (simp add: G_def)
qed

text \<open>
  C4 (no best partition is returned).  The module does not import \<^verbatim>\<open>community\<close>, so
  whatever the network, the target and the group, \<^verbatim>\<open>busmap_by_louvain\<close> ends in
  \<^verbatim>\<open>NameError\<close> at its first call of \<^verbatim>\<open>community.best_partition\<close>.  With the name
  bound, the three passes do not share their best partition: on a group of two buses
  with target 2, a first call that returns two communities is followed by two passes
  that never reach the target, and the function returns the single community of the
  third pass.
\<close>

theorem louvain_returns_no_best_partition:
  "snd (busmap_by_louvain (lib\<lparr>community := None\<rparr>) network n_clusters buses_i) = Inl NameError
   \<and> snd (busmap_by_louvain (lib_one\<lparr>community := Some partition_once\<rparr>) net_two_labelled 2
          [''a1'', ''a2''])
     = Inr [(''a1'', ''0''), (''a2'', ''0'')]
   \<and> n_communities
         (partition_once 0 (louvain_graph (lines net_two_labelled) [''a1'', ''a2''])
            (fdiv (Fin 100) (pow15 2))) = 2"
  using louvain_unbound_community louvain_third_pass_wins by simp

lemma abs_1j_times_fabs: "abs_1j_times v = fabs v"
  by (cases v) (simp_all add: fabs_def norm_mult)

text \<open>
  The graph handed to \<^verbatim>\<open>greedy_modularity\<close> has one edge per line inside the group,
  weighted with the line's thermal capacity \<^verbatim>\<open>s_nom\<close> divided by the magnitude of its
  resistance \<^verbatim>\<open>r\<close>.
\<close>

lemma newman_graph_weights:
  "newman_graph ls buses_i =
     (buses_i,
      map (\<lambda>l. (bus0 l, bus1 l, fdiv (s_nom l) (fabs (line_r l)))) (in_group_lines ls buses_i))"
  by (simp add: newman_graph_def abs_1j_times_fabs)

text \<open>
  C5 (the weight divides by the resistance).  A line with reactance \<open>1\<close>, resistance
  \<open>2\<close> and capacity \<open>4\<close> inside the group gets the weight \<open>4 / |2| = 2\<close> in the graph
  of \<^verbatim>\<open>busmap_by_newman\<close>; capacity over the magnitude of the reactance is \<open>4\<close>.  The
  graph of \<^verbatim>\<open>busmap_by_louvain\<close> weights the same line by its reactance,
  \<open>1 / 1 + 0.1\<close>.
\<close>

theorem newman_weight_divides_by_resistance:
  "newman_graph
       [\<lparr>bus0 = ''a'', bus1 = ''b'', line_x = Fin 1, line_r = Fin 2, s_nom = Fin 4\<rparr>]
       [''a'', ''b'']
     = ([''a'', ''b''], [(''a'', ''b'', Fin 2)])
   \<and> fdiv (Fin 4) (fabs (Fin 1)) = Fin 4
   \<and> louvain_graph
       [\<lparr>bus0 = ''a'', bus1 = ''b'', line_x = Fin 1, line_r = Fin 2, s_nom = Fin 4\<rparr>]
       [''a'', ''b'']
     = ([''a'', ''b''], [(''a'', ''b'', Fin (11 / 10))])"
  by (simp add: newman_graph_def louvain_graph_def in_group_lines_def fabs_def norm_mult)

section \<open>The busmap builder: results\<close>

text \<open>
  C8 (single-node group).  For a group of exactly one bus, whatever the algorithm
  name (supported or not), the budget, the library routines and the network,
  \<^verbatim>\<open>busmap_for_country\<close> maps the bus to the group prefix followed by \<^verbatim>\<open>0\<close> and leaves
  the network as it was; the result does not depend on any clustering routine.
\<close>

theorem single_node_group_trivial_map:
  "busmap_for_country lib feature algorithm algorithm_kwds n_clusters n ((c, s), [b])
     = (n, Inr [(bus_name b, c @ s @ '' 0'')])"
  by (simp add: busmap_for_country_def)

lemma busmap_for_country_buses:
  "buses (fst (busmap_for_country lib feature algorithm kwds budget n x)) = buses n"
  by (simp add: busmap_for_country_def busmap_by_louvain_def busmap_by_newman_def Let_def
      split: sum.splits prod.splits option.splits)

lemma apply_groups_buses:
  assumes "\<And>m g. buses (fst (f m g)) = buses m"
  shows "buses (fst (apply_groups f n gs)) = buses n"
proof (induction gs arbitrary: n)
  case Nil
  then show ?case by simp
next
  case (Cons g gs)
  have a: "buses (fst (f n g)) = buses n" by (rule assms)
  show ?case
  proof (cases "f n g")
    case (Pair n1 r)
    with a have b: "buses n1 = buses n" by simp
    show ?thesis
    proof (cases r)
      case (Inl e)
      with Pair b show ?thesis by simp
    next
      case (Inr bm)
      have "buses (fst (apply_groups f n1 gs)) = buses n1" by (rule Cons.IH)
      with Pair Inr b show ?thesis
        by (cases "apply_groups f n1 gs") (auto split: sum.splits)
    qed
  qed
qed

lemma topology_names:
  "map bus_name (buses (determine_network_topology n)) = map bus_name (buses n)"
  by (simp add: determine_network_topology_def Let_def comp_def)

lemma topology_countries:
  "map country (buses (determine_network_topology n)) = map country (buses n)"
  by (simp add: determine_network_topology_def Let_def comp_def)

lemma busmap_for_n_clusters_buses:
  "buses (fst (busmap_for_n_clusters float_sum lib SolverFactory config_solver feature n n_clusters
                 solver_name focus_weights algorithm algorithm_kwds))
     = buses (determine_network_topology n)"
proof -
  have "\<And>kw budget m gs.
          buses (fst (apply_groups (busmap_for_country lib feature algorithm kw budget) m gs))
            = buses m"
    by (rule apply_groups_buses) (rule busmap_for_country_buses)
  then have "\<And>kw budget m gs n2 res.
          apply_groups (busmap_for_country lib feature algorithm kw budget) m gs = (n2, res)
            \<Longrightarrow> buses n2 = buses m"
    by (metis fst_conv)
  then show ?thesis
    by (auto simp add: busmap_for_n_clusters_def Let_def split: sum.splits prod.splits)
qed

text \<open>
  C9 (as the code has it).  After any run of \<^verbatim>\<open>busmap_for_n_clusters\<close>, failed or
  not, the bus table is the one \<^verbatim>\<open>determine_network_topology\<close> leaves behind: the bus
  names and countries are those of the input, and \<^verbatim>\<open>sub_network\<close> is the only
  attribute that was written.
\<close>

theorem only_sub_network_rewritten:
  "buses (fst (busmap_for_n_clusters float_sum lib SolverFactory config_solver feature n n_clusters
                 solver_name focus_weights algorithm algorithm_kwds))
     = buses (determine_network_topology n)
   \<and> map bus_name (buses (fst (busmap_for_n_clusters float_sum lib SolverFactory config_solver feature n
                 n_clusters solver_name focus_weights algorithm algorithm_kwds)))
     = map bus_name (buses n)
   \<and> map country (buses (fst (busmap_for_n_clusters float_sum lib SolverFactory config_solver feature n
                 n_clusters solver_name focus_weights algorithm algorithm_kwds)))
     = map country (buses n)"
  by (simp add: busmap_for_n_clusters_buses topology_names topology_countries)

text \<open>
  C9 (as the claim states it) fails: on \<open>net_two\<close>, whose sub-networks are not yet
  determined, the bus table after the call differs from the one before.
\<close>

theorem buses_mutated_by_busmap_for_n_clusters:
  "buses (fst (busmap_for_n_clusters sum_left_to_right lib_one solver_factory ''glpk''
                 ''solar-cap'' net_two 3 (Some ''cbc'') None ''kmeans'' []))
     \<noteq> buses net_two"
  unfolding busmap_net_two by (simp add: net_two_def net_two_labelled_def)

lemma add_prefix_Inr:
  "add_prefix p res = Inr r \<Longrightarrow> \<exists>r0. res = Inr r0 \<and> r = map (\<lambda>(k, v). (k, p @ v)) r0"
  by (cases res) (simp_all add: add_prefix_def)

lemma make_series_index: "make_series vs ks = Inr s \<Longrightarrow> map fst s = ks"
  by (auto simp add: make_series_def split: if_splits)

lemma newman_label_index: "newman_label comms c bm = Inr r \<Longrightarrow> map fst r = map fst bm"
proof (induction comms arbitrary: c bm)
  case Nil
  then show ?case by simp
next
  case (Cons comm comms)
  from Cons.prems have "newman_label comms (Suc c)
             (map (\<lambda>(k, v). (k, if k \<in> set comm then str_nat c else v)) bm) = Inr r"
    by (simp split: if_splits)
  from Cons.IH[OF this] show ?case by (simp add: comp_def case_prod_unfold)
qed

lemma busmap_by_louvain_index:
  "busmap_by_louvain lib m k buses_i = (m', Inr r) \<Longrightarrow> map fst r = buses_i"
  by (auto simp add: busmap_by_louvain_def Let_def split: option.splits prod.splits
      dest: make_series_index)

lemma busmap_by_newman_index:
  "busmap_by_newman lib m k buses_i = (m', Inr r) \<Longrightarrow> map fst r = buses_i"
  by (auto simp add: busmap_by_newman_def Let_def comp_def dest!: newman_label_index)

lemma busmap_by_hac_index:
  "busmap_by_hac lib m k buses_i feature = Inr r \<Longrightarrow> map fst r = buses_i"
  by (auto simp add: busmap_by_hac_def split: sum.splits dest: make_series_index)

lemma prefixed_rows:
  "r = map (\<lambda>(k, v). (k, (fst key @ snd key @ '' '') @ v)) r0 \<Longrightarrow>
     map fst r = map fst r0 \<and> (\<forall>row \<in> set r. prefixed key (snd row))"
  by (auto simp add: prefixed_def comp_def case_prod_unfold)

lemma busmap_for_country_rows:
  assumes lib: "keeps_index lib"
    and run: "busmap_for_country lib feature algorithm kwds budget m g = (m', Inr r)"
  shows "map fst r = map bus_name (snd g) \<and> (\<forall>row \<in> set r. prefixed (fst g) (snd row))"
proof (cases "length (snd g) = 1")
  case True
  with run have "r = map (\<lambda>b. (b, (fst (fst g) @ snd (fst g) @ '' '') @ ''0'')) (map bus_name (snd g))"
    by (simp add: busmap_for_country_def Let_def)
  then show ?thesis by (auto simp add: prefixed_def comp_def)
next
  case False
  let ?p = "fst (fst g) @ snd (fst g) @ '' ''"
  let ?idx = "map bus_name (snd g)"
  from run False obtain r0 where r: "r = map (\<lambda>(k, v). (k, ?p @ v)) r0" and idx: "map fst r0 = ?idx"
    using lib
    by (auto simp add: busmap_for_country_def Let_def keeps_index_def reduce_network_def
        split: sum.splits if_splits prod.splits
        dest!: add_prefix_Inr dest: busmap_by_louvain_index busmap_by_newman_index
          busmap_by_hac_index)
  from prefixed_rows[OF r] idx show ?thesis by simp
qed

lemma apply_groups_rows:
  assumes "\<And>m g m' r. f m g = (m', Inr r) \<Longrightarrow> P g r"
  shows "apply_groups f n gs = (n', Inr bm) \<Longrightarrow> \<exists>rs. bm = concat rs \<and> list_all2 P gs rs"
proof (induction gs arbitrary: n n' bm)
  case Nil
  then show ?case by simp
next
  case (Cons g gs)
  from Cons.prems obtain n1 r n2 rest where
    a: "f n g = (n1, Inr r)" and b: "apply_groups f n1 gs = (n2, Inr rest)" and c: "bm = r @ rest"
    by (auto split: prod.splits sum.splits)
  from Cons.IH[OF b] obtain rs where "rest = concat rs" "list_all2 P gs rs" by blast
  with c assms[OF a] have "bm = concat (r # rs) \<and> list_all2 P (g # gs) (r # rs)" by simp
  then show ?case by blast
qed

lemma mset_filter_key_split:
  "k \<notin> set ks \<Longrightarrow>
     mset (filter (\<lambda>x. f x = k) xs) + mset (filter (\<lambda>x. f x \<in> set ks) xs)
       = mset (filter (\<lambda>x. f x = k \<or> f x \<in> set ks) xs)"
  by (induction xs) auto

lemma mset_concat_filter_keys:
  "distinct ks \<Longrightarrow>
     mset (concat (map (\<lambda>k. filter (\<lambda>x. f x = k) xs) ks)) = mset (filter (\<lambda>x. f x \<in> set ks) xs)"
proof (induction ks)
  case Nil
  then show ?case by simp
next
  case (Cons k ks)
  then have "mset (concat (map (\<lambda>k. filter (\<lambda>x. f x = k) xs) (k # ks)))
      = mset (filter (\<lambda>x. f x = k) xs) + mset (filter (\<lambda>x. f x \<in> set ks) xs)"
    by simp
  also have "\<dots> = mset (filter (\<lambda>x. f x = k \<or> f x \<in> set ks) xs)"
    using Cons.prems by (intro mset_filter_key_split) simp
  finally show ?case by simp
qed

lemma groups_partition: "mset (concat (map snd (groups n))) = mset (buses n)"
proof -
  have "mset (concat (map (\<lambda>k. filter (\<lambda>b. key_of b = k) (buses n)) (remdups (map key_of (buses n)))))
      = mset (filter (\<lambda>b. key_of b \<in> set (remdups (map key_of (buses n)))) (buses n))"
    by (rule mset_concat_filter_keys) simp
  then show ?thesis by (simp add: groups_def comp_def)
qed

lemma groups_member:
  "g \<in> set (groups n) \<Longrightarrow> b \<in> set (snd g) \<Longrightarrow> b \<in> set (buses n) \<and> key_of b = fst g"
  by (auto simp add: groups_def)

lemma groups_nonempty_key:
  "g \<in> set (groups n) \<Longrightarrow> \<exists>b \<in> set (buses n). key_of b = fst g"
  by (auto simp add: groups_def)

lemma reach_contains: "set vs \<subseteq> set (reach ls k vs)"
proof (induction k arbitrary: vs)
  case 0
  then show ?case by simp
next
  case (Suc k)
  let ?next = "remdups (vs @ concat (map (\<lambda>l. if bus0 l \<in> set vs \<or> bus1 l \<in> set vs
                                         then [bus0 l, bus1 l] else []) ls))"
  have "set vs \<subseteq> set ?next" by auto
  also have "\<dots> \<subseteq> set (reach ls k ?next)" by (rule Suc.IH)
  finally show ?case by simp
qed

lemma label_components_covers:
  "set vs \<union> fst ` set acc \<subseteq> fst ` set (label_components ls fuel vs i acc)"
proof (induction vs arbitrary: i acc)
  case Nil
  then show ?case by simp
next
  case (Cons v vs)
  show ?case
  proof (cases "v \<in> set (map fst acc)")
    case True
    with Cons.IH[of acc i] show ?thesis by auto
  next
    case False
    let ?acc = "acc @ map (\<lambda>u. (u, i)) (filter (\<lambda>u. u \<notin> set (map fst acc)) (reach ls fuel [v]))"
    have "v \<in> set (reach ls fuel [v])" using reach_contains[of "[v]" ls fuel] by simp
    with False have "(v, i) \<in> set ?acc" by simp
    then have "v \<in> fst ` set ?acc" by (rule rev_image_eqI) simp
    moreover have "fst ` set acc \<subseteq> fst ` set ?acc" by auto
    ultimately have "insert v (fst ` set acc) \<subseteq> fst ` set ?acc" by simp
    moreover have "set vs \<union> fst ` set ?acc \<subseteq> fst ` set (label_components ls fuel vs (Suc i) ?acc)"
      by (rule Cons.IH)
    moreover have "label_components ls fuel (v # vs) i acc = label_components ls fuel vs (Suc i) ?acc"
      using False by simp
    moreover have "set (v # vs) \<union> fst ` set acc = insert v (fst ` set acc) \<union> set vs"
      by auto
    ultimately show ?thesis by (simp only:) blast
  qed
qed

lemma digit_char_not_space: "CHR '' '' \<noteq> digit_char d"
  by (simp add: digit_char_def)

lemma str_nat_no_space: "CHR '' '' \<notin> set (str_nat k)"
proof (induction k rule: str_nat.induct)
  case (1 k)
  show ?case
  proof (cases "k < 10")
    case True
    then show ?thesis by (subst str_nat.simps) (simp add: digit_char_not_space)
  next
    case False
    with 1 show ?thesis by (subst str_nat.simps) (simp add: digit_char_not_space)
  qed
qed

lemma topology_sub_network:
  assumes "b \<in> set (buses (determine_network_topology n))"
  shows "CHR '' '' \<notin> set (sub_network b)"
proof -
  let ?labels = "label_components (lines n) (length (buses n)) (map bus_name (buses n)) 0 []"
  from assms obtain b0 where b0: "b0 \<in> set (buses n)"
    and b: "b = b0\<lparr>sub_network := (case map_of ?labels (bus_name b0) of
                                     Some i \<Rightarrow> str_nat i | None \<Rightarrow> sub_network b0)\<rparr>"
    by (auto simp add: determine_network_topology_def Let_def)
  have "bus_name b0 \<in> fst ` set ?labels"
    using label_components_covers[of "map bus_name (buses n)" "[]" "lines n" "length (buses n)" 0] b0
    by auto
  then obtain i where "map_of ?labels (bus_name b0) = Some i"
    by (metis map_of_eq_None_iff not_Some_eq)
  with b show ?thesis by (simp add: str_nat_no_space)
qed

lemma takeWhile_up_to_space:
  "CHR '' '' \<notin> set s \<Longrightarrow> takeWhile (\<lambda>ch. ch \<noteq> CHR '' '') (s @ CHR '' '' # l) = s"
  by (induction s) auto

lemma prefix_injective:
  assumes "length c1 = length c2" and "CHR '' '' \<notin> set s1" and "CHR '' '' \<notin> set s2"
    and eq: "c1 @ s1 @ '' '' @ l1 = c2 @ s2 @ '' '' @ l2"
  shows "c1 = c2 \<and> s1 = s2"
proof -
  from eq assms(1) have c: "c1 = c2" and rest: "s1 @ CHR '' '' # l1 = s2 @ CHR '' '' # l2"
    by simp_all
  have t1: "takeWhile (\<lambda>ch. ch \<noteq> CHR '' '') (s1 @ CHR '' '' # l1) = s1"
    using assms(2) by (rule takeWhile_up_to_space)
  have t2: "takeWhile (\<lambda>ch. ch \<noteq> CHR '' '') (s2 @ CHR '' '' # l2) = s2"
    using assms(3) by (rule takeWhile_up_to_space)
  from rest t1 t2 have "s1 = s2" by metis
  with c show ?thesis by simp
qed

lemma focus_loop_length: "focus_loop fw L = Inr L1 \<Longrightarrow> length L1 = length L"
  by (induction fw L rule: focus_loop.induct) (auto simp add: Let_def split: if_splits)

lemma adjusted_share_length: "adjusted_share float_sum focus_weights L = Inr L1 \<Longrightarrow> length L1 = length L"
  by (auto simp add: adjusted_share_def renormalise_remainder_def Let_def
      split: option.splits if_splits sum.splits dest: focus_loop_length)

lemma load_share_no_buses: "buses n = [] \<Longrightarrow> load_share n = []"
proof -
  assume "buses n = []"
  then have "load_rows n = []"
    by (simp add: load_rows_def case_prod_unfold)
  then show ?thesis by (simp add: load_share_def normed_def)
qed

lemma distribute_clusters_buses:
  assumes "distribute_clusters float_sum SolverFactory config_solver n n_clusters focus_weights solver_name
             = Inr budget"
  shows "buses n \<noteq> []"
proof
  assume "buses n = []"
  then have L: "load_share n = []" by (rule load_share_no_buses)
  have "adjusted_share float_sum focus_weights [] = Inr L1 \<Longrightarrow> L1 = []" for L1
    using adjusted_share_length[of float_sum focus_weights "[]" L1] by simp
  then have "\<And>L1. adjusted_share float_sum focus_weights [] = Inr L1 \<Longrightarrow>
               \<not> isclose (series_sum (map snd L1)) 1 (1 / 10 ^ 3)"
    by (auto simp add: series_sum_def isclose_def)
  with assms L show False
    by (auto simp add: distribute_clusters_def Let_def split: if_splits sum.splits)
qed

lemma groups_cong: "buses a = buses b \<Longrightarrow> groups a = groups b"
  by (simp add: groups_def)

lemma topology_country:
  "b \<in> set (buses (determine_network_topology n)) \<Longrightarrow> \<exists>b0 \<in> set (buses n). country b = country b0"
  by (auto simp add: determine_network_topology_def Let_def)

lemma rows_index_concat:
  "list_all2 (\<lambda>g r. map fst r = h g \<and> Q g r) gs rs \<Longrightarrow>
     map fst (concat rs) = concat (map h gs)"
  by (induction gs rs rule: list_all2_induct) simp_all

lemma rows_origin:
  assumes "list_all2 P gs rs" and "row \<in> set (concat rs)"
  shows "\<exists>g r. g \<in> set gs \<and> row \<in> set r \<and> P g r"
  using assms by (induction gs rs rule: list_all2_induct) auto

text \<open>
  C2 (as the code has it).  Let \<^verbatim>\<open>busmap_for_n_clusters\<close> return a busmap, let the
  PyPSA strategies keep the index they are given and let the bus names be distinct.
  Then every bus name is a key of the busmap exactly once and the number of distinct
  labels is at least 1 and at most the number of buses; and if all country codes have
  the same length, the labels of two groups with different keys are disjoint.
\<close>

theorem busmap_keys_labels_prefixes:
  assumes run: "busmap_for_n_clusters float_sum lib SolverFactory config_solver feature n n_clusters
                  solver_name focus_weights algorithm algorithm_kwds = (n', Inr bm)"
    and lib: "keeps_index lib"
    and names: "distinct (map bus_name (buses n))"
  shows "mset (map fst bm) = mset (map bus_name (buses n))
       \<and> 1 \<le> card (set (map snd bm)) \<and> card (set (map snd bm)) \<le> length (buses n)
       \<and> ((\<forall>b \<in> set (buses n). \<forall>b' \<in> set (buses n). length (country b) = length (country b'))
            \<longrightarrow> (\<forall>g1 \<in> set (groups n'). \<forall>g2 \<in> set (groups n'). fst g1 \<noteq> fst g2 \<longrightarrow>
                   set (group_labels bm (snd g1)) \<inter> set (group_labels bm (snd g2)) = {}))"
proof -
  let ?n1 = "determine_network_topology n"
  let ?P = "\<lambda>g r. map fst r = map bus_name (snd g) \<and> (\<forall>row \<in> set r. prefixed (fst g) (snd row))"
  from run obtain budget kw where
    dc: "distribute_clusters float_sum SolverFactory config_solver ?n1 n_clusters focus_weights solver_name
           = Inr budget"
    and ag: "apply_groups (busmap_for_country lib feature algorithm kw budget) ?n1 (groups ?n1)
           = (n', Inr bm)"
    by (auto simp add: busmap_for_n_clusters_def Let_def split: sum.splits prod.splits if_splits)
  have "\<exists>rs. bm = concat rs \<and> list_all2 ?P (groups ?n1) rs"
    by (rule apply_groups_rows[where P = ?P, OF _ ag]) (rule busmap_for_country_rows[OF lib])
  then obtain rs where
    bm: "bm = concat rs" and all2: "list_all2 ?P (groups ?n1) rs"
    by blast
  have n'buses: "buses n' = buses ?n1"
    using busmap_for_n_clusters_buses[of float_sum lib SolverFactory config_solver feature n n_clusters
        solver_name focus_weights algorithm algorithm_kwds] run by simp
  have names1: "distinct (map bus_name (buses ?n1))"
    using names by (simp add: topology_names)
  \<comment> \<open>keys\<close>
  have "map fst bm = concat (map (\<lambda>g. map bus_name (snd g)) (groups ?n1))"
    unfolding bm using all2 by (rule rows_index_concat)
  also have "\<dots> = map bus_name (concat (map snd (groups ?n1)))"
    by (simp add: map_concat comp_def)
  finally have "mset (map fst bm) = image_mset bus_name (mset (concat (map snd (groups ?n1))))"
    by simp
  then have "mset (map fst bm) = mset (map bus_name (buses ?n1))"
    by (simp only: groups_partition mset_map)
  then have keys: "mset (map fst bm) = mset (map bus_name (buses n))"
    by (simp only: topology_names)
  \<comment> \<open>number of labels\<close>
  from keys have len: "length bm = length (buses n)"
    by (metis length_map mset_eq_length)
  have "buses ?n1 \<noteq> []" using dc by (rule distribute_clusters_buses)
  then have "buses n \<noteq> []"
    using topology_names[of n] by (metis map_is_Nil_conv)
  with len have "bm \<noteq> []" by auto
  then have lower: "1 \<le> card (set (map snd bm))"
    by (simp add: Suc_le_eq card_gt_0_iff)
  have upper: "card (set (map snd bm)) \<le> length (buses n)"
    using card_length[of "map snd bm"] len by simp
  \<comment> \<open>a label of a group carries that group's prefix\<close>
  have origin: "prefixed (fst g1) v"
    if g1: "g1 \<in> set (groups ?n1)" and v: "v \<in> set (group_labels bm (snd g1))" for g1 v
  proof -
    from v obtain row where row: "row \<in> set bm" "snd row = v"
      and inb: "fst row \<in> bus_name ` set (snd g1)"
      by (auto simp add: group_labels_def)
    from rows_origin[OF all2 row(1)[unfolded bm]] obtain g r where
      g: "g \<in> set (groups ?n1)" and r: "row \<in> set r" and P: "?P g r"
      by blast
    from P r have "fst row \<in> bus_name ` set (snd g)"
      by (metis (no_types, lifting) image_eqI list.set_map)
    then obtain x where x: "x \<in> set (snd g)" "bus_name x = fst row" by auto
    from inb obtain y where y: "y \<in> set (snd g1)" "bus_name y = fst row" by auto
    from groups_member[OF g x(1)] groups_member[OF g1 y(1)]
    have mem: "x \<in> set (buses ?n1)" "y \<in> set (buses ?n1)"
      and key: "key_of x = fst g" "key_of y = fst g1" by simp_all
    from names1 have "inj_on bus_name (set (buses ?n1))" by (rule distinct_map[THEN iffD1, THEN conjunct2])
    with mem x(2) y(2) have "x = y" by (metis inj_onD)
    with key have "fst g = fst g1" by simp
    with P r row(2) show ?thesis by auto
  qed
  \<comment> \<open>prefixes of distinct groups differ\<close>
  have shape: "\<exists>b0 \<in> set (buses n). length (fst (fst g)) = length (country b0)
                 \<and> CHR '' '' \<notin> set (snd (fst g))"
    if g: "g \<in> set (groups ?n1)" for g
  proof -
    from groups_nonempty_key[OF g] obtain b where b: "b \<in> set (buses ?n1)" "key_of b = fst g"
      by blast
    have "fst (key_of b) = country b" "snd (key_of b) = sub_network b"
      by (simp_all add: key_of_def)
    then have c: "fst (fst g) = country b" "snd (fst g) = sub_network b"
      by (simp_all only: b(2))
    from topology_country[OF b(1)] obtain b0 where b0: "b0 \<in> set (buses n)" "country b = country b0"
      by blast
    from topology_sub_network[OF b(1)] have "CHR '' '' \<notin> set (sub_network b)" .
    with b0 show ?thesis unfolding c by (intro bexI[of _ b0]) simp_all
  qed
  have disjoint: "set (group_labels bm (snd g1)) \<inter> set (group_labels bm (snd g2)) = {}"
    if codes: "\<forall>b \<in> set (buses n). \<forall>b' \<in> set (buses n). length (country b) = length (country b')"
      and g1: "g1 \<in> set (groups ?n1)" and g2: "g2 \<in> set (groups ?n1)" and ne: "fst g1 \<noteq> fst g2"
    for g1 g2
  proof (rule ccontr)
    assume "set (group_labels bm (snd g1)) \<inter> set (group_labels bm (snd g2)) \<noteq> {}"
    then obtain v where v1: "v \<in> set (group_labels bm (snd g1))"
      and v2: "v \<in> set (group_labels bm (snd g2))" by auto
    from origin[OF g1 v1] obtain l1 where l1: "v = fst (fst g1) @ snd (fst g1) @ '' '' @ l1"
      by (auto simp add: prefixed_def)
    from origin[OF g2 v2] obtain l2 where l2: "v = fst (fst g2) @ snd (fst g2) @ '' '' @ l2"
      by (auto simp add: prefixed_def)
    from shape[OF g1] obtain a1 where a1: "a1 \<in> set (buses n)"
      "length (fst (fst g1)) = length (country a1)" "CHR '' '' \<notin> set (snd (fst g1))"
      by blast
    from shape[OF g2] obtain a2 where a2: "a2 \<in> set (buses n)"
      "length (fst (fst g2)) = length (country a2)" "CHR '' '' \<notin> set (snd (fst g2))"
      by blast
    from codes a1(1) a2(1) have "length (country a1) = length (country a2)" by blast
    with a1(2) a2(2) have "length (fst (fst g1)) = length (fst (fst g2))" by simp
    from prefix_injective[OF this a1(3) a2(3) l1[symmetric, unfolded l2]]
    have "fst g2 = fst g1" by (simp add: prod_eq_iff)
    with ne show False by simp
  qed
  have "(\<forall>b \<in> set (buses n). \<forall>b' \<in> set (buses n). length (country b) = length (country b'))
          \<longrightarrow> (\<forall>g1 \<in> set (groups n'). \<forall>g2 \<in> set (groups n'). fst g1 \<noteq> fst g2 \<longrightarrow>
                 set (group_labels bm (snd g1)) \<inter> set (group_labels bm (snd g2)) = {})"
    unfolding groups_cong[OF n'buses] using disjoint by blast
  with keys lower upper show ?thesis by blast
qed

text \<open>
  On \<open>net_two\<close>: four keys, two labels, and the labels of the two groups are disjoint.
\<close>

theorem busmap_keys_labels_prefixes_witness:
  "mset (map fst [(''a1'', ''AA0 0''), (''a2'', ''AA0 0''), (''b1'', ''BB1 0''), (''b2'', ''BB1 0'')])
     = mset (map bus_name (buses net_two))
   \<and> 1 \<le> card (set (map snd [(''a1'', ''AA0 0''), (''a2'', ''AA0 0''), (''b1'', ''BB1 0''),
                               (''b2'', ''BB1 0'')]))
   \<and> card (set (map snd [(''a1'', ''AA0 0''), (''a2'', ''AA0 0''), (''b1'', ''BB1 0''),
                          (''b2'', ''BB1 0'')])) \<le> length (buses net_two)
   \<and> set (group_labels [(''a1'', ''AA0 0''), (''a2'', ''AA0 0''), (''b1'', ''BB1 0''),
                          (''b2'', ''BB1 0'')]
             [\<lparr>bus_name = ''a1'', country = ''AA'', sub_network = ''0''\<rparr>,
              \<lparr>bus_name = ''a2'', country = ''AA'', sub_network = ''0''\<rparr>])
     \<inter> set (group_labels [(''a1'', ''AA0 0''), (''a2'', ''AA0 0''), (''b1'', ''BB1 0''),
                            (''b2'', ''BB1 0'')]
             [\<lparr>bus_name = ''b1'', country = ''BB'', sub_network = ''1''\<rparr>,
              \<lparr>bus_name = ''b2'', country = ''BB'', sub_network = ''1''\<rparr>]) = {}"
proof -
  have k: "keeps_index lib_one"
    by (simp add: keeps_index_def lib_one_def comp_def)
  have d: "distinct (map bus_name (buses net_two))"
    by (simp add: net_two_def)
  have c: "\<forall>b \<in> set (buses net_two). \<forall>b' \<in> set (buses net_two).
             length (country b) = length (country b')"
    by (simp add: net_two_def)
  note t = busmap_keys_labels_prefixes[OF busmap_net_two k d]
  have g: "((''AA'', ''0''), [\<lparr>bus_name = ''a1'', country = ''AA'', sub_network = ''0''\<rparr>,
                        \<lparr>bus_name = ''a2'', country = ''AA'', sub_network = ''0''\<rparr>])
             \<in> set (groups net_two_labelled)"
          "((''BB'', ''1''), [\<lparr>bus_name = ''b1'', country = ''BB'', sub_network = ''1''\<rparr>,
                        \<lparr>bus_name = ''b2'', country = ''BB'', sub_network = ''1''\<rparr>])
             \<in> set (groups net_two_labelled)"
    by (simp_all add: groups_net_two)
  from t c have "\<forall>g1 \<in> set (groups net_two_labelled). \<forall>g2 \<in> set (groups net_two_labelled).
      fst g1 \<noteq> fst g2 \<longrightarrow>
        set (group_labels [(''a1'', ''AA0 0''), (''a2'', ''AA0 0''), (''b1'', ''BB1 0''),
                           (''b2'', ''BB1 0'')] (snd g1))
        \<inter> set (group_labels [(''a1'', ''AA0 0''), (''a2'', ''AA0 0''), (''b1'', ''BB1 0''),
                           (''b2'', ''BB1 0'')] (snd g2)) = {}"
    by blast
  from this[rule_format, OF g] t show ?thesis by simp
qed

text \<open>
  C2 (as the claim states it) fails without the condition on the country codes: in
  \<open>net_clash\<close> the groups \<^verbatim>\<open>('A1', '0')\<close> and \<^verbatim>\<open>('A', '10')\<close> have the same prefix
  \<^verbatim>\<open>'A10 '\<close>, and both give their bus the label \<^verbatim>\<open>'A10 0'\<close>.
\<close>

theorem group_prefixes_collide:
  "busmap_for_n_clusters sum_left_to_right lib_one gurobi_factory ''gurobi'' ''solar-cap''
       net_clash 11 (Some ''gurobi'') None ''kmeans'' []
     = (net_clash_labelled, Inr clash_busmap)
   \<and> ((''A1'', ''0''), [mk_bus ''p'' ''A1'' ''0'']) \<in> set (groups net_clash_labelled)
   \<and> ((''A'', ''10''), [mk_bus ''t'' ''A'' ''10'']) \<in> set (groups net_clash_labelled)
   \<and> group_labels clash_busmap [mk_bus ''p'' ''A1'' ''0''] = [''A10 0'']
   \<and> group_labels clash_busmap [mk_bus ''t'' ''A'' ''10''] = [''A10 0'']"
  by (simp add: busmap_net_clash groups_net_clash)
     (simp add: group_labels_def clash_busmap_def mk_bus_def)

section \<open>Clustering for a number of clusters: results\<close>




section \<open>Cluster allocation with an honest solver\<close>

lemma mapM_Inr: "mapM f xs = Inr ys \<Longrightarrow> list_all2 (\<lambda>x y. f x = Inr y) xs ys"
  by (induction xs arbitrary: ys) (auto split: sum.splits)

lemma build_model_Inr:
  assumes "build_model N L k = Inr m"
  shows "m_total m = k \<and> map v_key (m_vars m) = map fst L
         \<and> (\<forall>v \<in> set (m_vars m). map_of N (v_key v) = Some (v_upper v))"
proof -
  let ?f = "\<lambda>(k, v). case map_of N k of
                             None \<Rightarrow> Inl KeyError
                           | Some u \<Rightarrow> Inr \<lparr>v_key = k, v_upper = u, v_share = v\<rparr>"
  from assms obtain vs where vs: "mapM ?f L = Inr vs" and m: "m = \<lparr>m_vars = vs, m_total = k\<rparr>"
    by (auto simp add: build_model_def split: sum.splits)
  from mapM_Inr[OF vs] have all2: "list_all2 (\<lambda>x y. ?f x = Inr y) L vs" .
  then have "map v_key vs = map fst L"
    by (induction L vs rule: list_all2_induct) (auto split: option.splits)
  moreover from all2 have "\<forall>v \<in> set vs. map_of N (v_key v) = Some (v_upper v)"
    by (induction L vs rule: list_all2_induct) (auto split: option.splits)
  ultimately show ?thesis using m by simp
qed

lemma astype_int_Inr:
  assumes "astype_int s = Inr r"
  shows "r = map (\<lambda>row. (fst row, trunc (fin_value (snd row)))) s"
proof -
  let ?f = "\<lambda>(k, v). case astype_int1 v of Inl e \<Rightarrow> Inl e | Inr i \<Rightarrow> Inr (k, i)"
  from assms have "list_all2 (\<lambda>x y. ?f x = Inr y) s r"
    unfolding astype_int_def by (rule mapM_Inr)
  then show ?thesis
  proof (induction s r rule: list_all2_induct)
    case Nil
    then show ?case by simp
  next
    case (Cons x xs y ys)
    obtain k v where x: "x = (k, v)" by (cases x)
    from Cons(1) x have "y = (k, trunc (fin_value v))"
      by (cases v) (auto split: sum.splits)
    with Cons x show ?case by simp
  qed
qed

lemma trunc_of_int: "trunc (real_of_int i) = i"
  by (simp add: trunc_def)

lemma real_of_int_sum_list: "real_of_int (sum_list (map f xs)) = (\<Sum>x\<leftarrow>xs. real_of_int (f x))"
  by (induction xs) simp_all

text \<open>
  Whenever every solver reports \<^verbatim>\<open>ok\<close> only with a solution that meets the model, a
  budget returned by \<^verbatim>\<open>distribute_clusters\<close> sums to the requested number of clusters and
  gives every group at least one cluster and at most as many as it has buses.
\<close>

theorem feasible_solution_gives_valid_budget:
  assumes honest: "honest SolverFactory"
    and run: "distribute_clusters float_sum SolverFactory config_solver n n_clusters focus_weights
                solver_name = Inr budget"
  shows "sum_list (map snd budget) = n_clusters
       \<and> (\<forall>row \<in> set budget.
             \<exists>u. map_of (group_sizes n) (fst row) = Some u \<and> 1 \<le> snd row \<and> snd row \<le> int u)"
proof -
  define sname where "sname = (case solver_name of None \<Rightarrow> config_solver | Some s \<Rightarrow> s)"
  define opt where "opt = (if \<not> quadratic_objective (SolverFactory sname)
                           then SolverFactory ''ipopt'' else SolverFactory sname)"
  from run obtain L m where
    build: "build_model (group_sizes n) L n_clusters = Inr m"
    and ok: "fst (solve opt m)"
    and ast: "astype_int (map (\<lambda>(k, v). (k, snd (solve opt m) k)) L) = Inr budget"
    by (auto simp add: distribute_clusters_def Let_def sname_def opt_def
        split: if_splits sum.splits)
  have "\<exists>s. opt = SolverFactory s"
    by (cases "quadratic_objective (SolverFactory sname)") (auto simp add: opt_def)
  then obtain s where "opt = SolverFactory s" by blast
  with honest ok have feas: "feasible m (snd (solve opt m))"
    by (cases "solve (SolverFactory s) m") (auto simp add: honest_def)
  define w where "w = snd (solve opt m)"
  from build_model_Inr[OF build] have total: "m_total m = n_clusters"
    and keys: "map v_key (m_vars m) = map fst L"
    and upper: "\<forall>v \<in> set (m_vars m). map_of (group_sizes n) (v_key v) = Some (v_upper v)"
    by simp_all
  from feas have int_vals: "\<forall>v \<in> set (m_vars m).
         \<exists>i. w (v_key v) = Fin (real_of_int i) \<and> 1 \<le> i \<and> i \<le> int (v_upper v)"
    and sum: "(\<Sum>v\<leftarrow>m_vars m. fin_value (w (v_key v))) = real_of_int n_clusters"
    by (simp_all add: feasible_def w_def total)
  from astype_int_Inr[OF ast]
  have budget: "budget = map (\<lambda>k. (k, trunc (fin_value (w k)))) (map fst L)"
    by (simp add: comp_def case_prod_unfold w_def)
  then have budget': "budget = map (\<lambda>v. (v_key v, trunc (fin_value (w (v_key v))))) (m_vars m)"
    by (simp add: keys[symmetric] comp_def)
  have exact: "real_of_int (trunc (fin_value (w (v_key v)))) = fin_value (w (v_key v))"
    if "v \<in> set (m_vars m)" for v
    using int_vals that by (auto simp add: trunc_of_int)
  have "real_of_int (sum_list (map snd budget))
      = (\<Sum>v\<leftarrow>m_vars m. real_of_int (trunc (fin_value (w (v_key v)))))"
    by (simp add: budget' comp_def real_of_int_sum_list)
  also have "\<dots> = (\<Sum>v\<leftarrow>m_vars m. fin_value (w (v_key v)))"
    by (rule arg_cong[where f = sum_list]) (simp add: exact)
  finally have s: "sum_list (map snd budget) = n_clusters"
    using sum by simp
  have "\<exists>u. map_of (group_sizes n) (fst row) = Some u \<and> 1 \<le> snd row \<and> snd row \<le> int u"
    if "row \<in> set budget" for row
  proof -
    from that budget' obtain v where v: "v \<in> set (m_vars m)"
      and row: "row = (v_key v, trunc (fin_value (w (v_key v))))" by auto
    from int_vals v obtain i where "w (v_key v) = Fin (real_of_int i)" "1 \<le> i" "i \<le> int (v_upper v)"
      by blast
    with upper v row show ?thesis by (auto simp add: trunc_of_int)
  qed
  with s show ?thesis by blast
qed

lemma honest_checking_factory: "honest checking_factory"
  by (auto simp add: honest_def checking_factory_def checked_ones_def split: if_splits)

lemma budget_net_two_checked:
  "distribute_clusters float_sum checking_factory ''glpk'' net_two_labelled 2 None (Some ''gurobi'')
     = Inr [((''AA'', ''0''), 1), ((''BB'', ''1''), 1)]"
  by (simp add: distribute_clusters_def load_share_net_two group_sizes_net_two
      adjusted_share_def series_sum_def is_nan_def isclose_def build_model_def
      checking_factory_def checked_ones_def feasible_def astype_int_def trunc_def)

theorem feasible_solution_gives_valid_budget_witness:
  "sum_list (map snd [((''AA'', ''0''), 1 :: int), ((''BB'', ''1''), 1)]) = 2
   \<and> (\<exists>u. map_of (group_sizes net_two_labelled) (''AA'', ''0'') = Some u \<and> (1 :: int) \<le> int u)"
  using feasible_solution_gives_valid_budget[OF honest_checking_factory budget_net_two_checked]
  by simp

section \<open>The Louvain search: bounds\<close>

text \<open>
  The search loop of \<^verbatim>\<open>busmap_by_louvain\<close> ends: one pass calls
  \<^verbatim>\<open>community.best_partition\<close> at most \<open>999\<close> times (once before the loop and at most twice
  in each of the at most \<open>499\<close> rounds).
\<close>

theorem louvain_search_bounded:
  "fst (louvain_while bp n_clusters calls res b bu c) \<le> calls + 2 * (500 - c)
   \<and> fst (louvain_repeat bp n_clusters calls) \<le> calls + 999"
proof -
  have "fst (louvain_while bp n_clusters (Suc calls) (fdiv (Fin 100) (pow15 n_clusters))
               (bp calls (fdiv (Fin 100) (pow15 n_clusters)))
               (bp calls (fdiv (Fin 100) (pow15 n_clusters))) 1) \<le> Suc calls + 2 * (500 - 1)"
    using louvain_while_calls by blast
  then have "fst (louvain_repeat bp n_clusters calls) \<le> calls + 999"
    by (simp add: louvain_repeat_def Let_def case_prod_unfold)
  with louvain_while_calls[of calls bp n_clusters res b bu c] show ?thesis by simp
qed

lemma fpos_div_nonneg: "fpos res \<Longrightarrow> 0 \<le> a \<Longrightarrow> fpos (fdiv res (Fin a))"
  by (cases res) (auto simp add: fpos_def)

lemma fpos_add_step: "fpos res \<Longrightarrow> fpos (fadd res (fdiv (Fin 1) (pow15 (int c))))"
  by (cases res; cases "real c powr (3 / 2) = 0")
     (auto simp add: fpos_def pow15_def add_pos_nonneg)

lemma fpos_floor: "fpos res \<Longrightarrow> fpos (if fless res (Fin (1 / 10 ^ 4)) then fadd res (Fin (1 / 10 ^ 4)) else res)"
  by (cases res) (auto simp add: fpos_def)

lemma louvain_while_positive:
  assumes same: "\<And>k r. fpos r \<Longrightarrow> bp k r = bp' k r"
  shows "fpos res \<Longrightarrow>
     louvain_while bp n_clusters calls res b bu c = louvain_while bp' n_clusters calls res b bu c"
proof (induction "500 - c" arbitrary: c calls res b bu)
  case 0
  then have "\<not> c < 500" by simp
  then show ?case by (subst (1 2) louvain_while.simps) simp
next
  case (Suc d)
  then have c: "c < 500" and d: "d = 500 - Suc c" by simp_all
  note IH = Suc.hyps(1)[OF d]
  note pos = \<open>fpos res\<close>
  show ?case
  proof (cases "n_communities b \<noteq> n_clusters")
    case False
    then show ?thesis by (subst (1 2) louvain_while.simps) simp
  next
    case True
    obtain calls1 b1 res1 where s1: "(calls1, b1, res1) =
               (if n_communities b < n_clusters
                then (Suc calls, bp calls res, fdiv res (Fin (real (c ^ 2))))
                else (calls, b, res))" by (metis prod_cases3)
    have s1': "(calls1, b1, res1) =
               (if n_communities b < n_clusters
                then (Suc calls, bp' calls res, fdiv res (Fin (real (c ^ 2))))
                else (calls, b, res))"
      using s1 same[OF pos] by simp
    have pos1: "fpos res1" using s1 pos by (auto simp add: fpos_div_nonneg split: if_splits)
    obtain calls2 b2 res2 where s2: "(calls2, b2, res2) =
               (if n_communities b1 > n_clusters
                then (Suc calls1, bp calls1 res1, fadd res1 (fdiv (Fin 1) (pow15 (int c))))
                else (calls1, b1, res1))" by (metis prod_cases3)
    have s2': "(calls2, b2, res2) =
               (if n_communities b1 > n_clusters
                then (Suc calls1, bp' calls1 res1, fadd res1 (fdiv (Fin 1) (pow15 (int c))))
                else (calls1, b1, res1))"
      using s2 same[OF pos1] by simp
    have pos2: "fpos res2" using s2 pos1 by (auto simp add: fpos_add_step split: if_splits)
    define res3 where "res3 = (if fless res2 (Fin (1 / 10 ^ 4)) then fadd res2 (Fin (1 / 10 ^ 4)) else res2)"
    have pos3: "fpos res3" unfolding res3_def using pos2 by (rule fpos_floor)
    define bu1 where "bu1 = (if \<bar>n_communities b2 - n_clusters\<bar> \<le> \<bar>n_communities bu - n_clusters\<bar>
                    then b2 else bu)"
    have u: "louvain_while bp n_clusters calls res b bu c
        = (if n_communities bu1 = n_clusters then (calls2, bu1)
           else louvain_while bp n_clusters calls2 res3 b2 bu1 (Suc c))"
      using True c
      by (subst louvain_while.simps)
         (simp add: Let_def s1[symmetric] s2[symmetric] res3_def bu1_def)
    have u': "louvain_while bp' n_clusters calls res b bu c
        = (if n_communities bu1 = n_clusters then (calls2, bu1)
           else louvain_while bp' n_clusters calls2 res3 b2 bu1 (Suc c))"
      using True c
      by (subst louvain_while.simps)
         (simp add: Let_def s1'[symmetric] s2'[symmetric] res3_def bu1_def)
    show ?thesis unfolding u u' using IH[OF pos3] by simp
  qed
qed

lemma fpos_default_resolution: "0 \<le> n_clusters \<Longrightarrow> fpos (fdiv (Fin 100) (pow15 n_clusters))"
  by (cases "real_of_int n_clusters powr (3 / 2) = 0") (auto simp add: fpos_def pow15_def)

text \<open>
  For a target that is not negative, the resolution stays positive throughout a pass:
  the pass only depends on what \<^verbatim>\<open>community.best_partition\<close> returns at positive
  resolutions.
\<close>

theorem louvain_resolution_positive:
  assumes same: "\<And>k r. fpos r \<Longrightarrow> bp k r = bp' k r" and target: "0 \<le> n_clusters"
  shows "louvain_repeat bp n_clusters calls = louvain_repeat bp' n_clusters calls"
proof -
  let ?res = "fdiv (Fin 100) (pow15 n_clusters)"
  have pos: "fpos ?res" using target by (rule fpos_default_resolution)
  have "bp calls ?res = bp' calls ?res" using pos by (rule same)
  moreover have "louvain_while bp n_clusters (Suc calls) ?res (bp' calls ?res) (bp' calls ?res) 1
      = louvain_while bp' n_clusters (Suc calls) ?res (bp' calls ?res) (bp' calls ?res) 1"
    using same pos by (rule louvain_while_positive)
  ultimately show ?thesis by (simp add: louvain_repeat_def Let_def)
qed

theorem louvain_resolution_positive_witness:
  "louvain_repeat (\<lambda>k r. if fpos r then [(''a1'', 0)] else []) 1 0
     = louvain_repeat (\<lambda>k r. [(''a1'', 0)]) 1 0"
  by (rule louvain_resolution_positive) simp_all

section \<open>Node weighting on regular inputs\<close>

lemma nonneg_conv: "nonneg v \<longleftrightarrow> v = Fin (fin_value v) \<and> 0 \<le> fin_value v"
  by (cases v) (simp_all add: nonneg_def)

lemma nonneg_fadd: "nonneg u \<Longrightarrow> nonneg v \<Longrightarrow> nonneg (fadd u v)"
  by (cases u; cases v) (simp_all add: nonneg_def)

lemma nonneg_foldl: "nonneg a \<Longrightarrow> \<forall>v \<in> set vs. nonneg v \<Longrightarrow> nonneg (foldl fadd a vs)"
  by (induction vs arbitrary: a) (simp_all add: nonneg_fadd)

lemma nonneg_series_sum: "\<forall>v \<in> set vs. nonneg v \<Longrightarrow> nonneg (series_sum vs)"
  unfolding series_sum_def by (rule nonneg_foldl) (simp_all add: nonneg_def)

lemma nonneg_lookup:
  assumes "\<forall>row \<in> set s. nonneg (snd row)"
  shows "nonneg (case map_of s k of Some v \<Rightarrow> v | None \<Rightarrow> Fin 0)"
proof (cases "map_of s k")
  case None
  then show ?thesis by (simp add: nonneg_def)
next
  case (Some v)
  then have "(k, v) \<in> set s" by (rule map_of_SomeD)
  with assms Some show ?thesis by force
qed

lemma reindex_nonneg:
  assumes "\<forall>row \<in> set s. nonneg (snd row)"
  shows "reindex s ks (Fin 0) = map (\<lambda>k. (k, Fin (value_at s k))) ks \<and> (\<forall>k. 0 \<le> value_at s k)"
proof -
  have "(case map_of s k of Some v \<Rightarrow> v | None \<Rightarrow> Fin 0) = Fin (value_at s k) \<and> 0 \<le> value_at s k" for k
    using nonneg_lookup[OF assms, of k] unfolding value_at_def by (simp add: nonneg_conv)
  then show ?thesis by (simp add: reindex_def)
qed

lemma nonneg_reindex:
  assumes "\<forall>row \<in> set s. nonneg (snd row)"
  shows "\<forall>row \<in> set (reindex s ks (Fin 0)). nonneg (snd row)"
proof
  fix row assume "row \<in> set (reindex s ks (Fin 0))"
  then obtain k where "row = (k, Fin (value_at s k))"
    using reindex_nonneg[OF assms, of ks] by auto
  with reindex_nonneg[OF assms, of ks] show "nonneg (snd row)" by (simp add: nonneg_def)
qed

lemma nonneg_conv_p_nom:
  assumes "\<forall>u \<in> set us. nonneg (p_nom u)"
  shows "\<forall>row \<in> set (conv_p_nom us idx). nonneg (snd row)"
proof -
  let ?conv = "filter (\<lambda>u. carrier u \<in> set conv_carriers) us"
  let ?s = "map (\<lambda>b. (b, series_sum (map p_nom (filter (\<lambda>u. u_bus u = b) ?conv))))
              (remdups (map u_bus ?conv))"
  have "\<forall>row \<in> set ?s. nonneg (snd row)"
  proof
    fix row assume "row \<in> set ?s"
    then obtain b where row: "row = (b, series_sum (map p_nom (filter (\<lambda>u. u_bus u = b) ?conv)))"
      by auto
    have "\<forall>v \<in> set (map p_nom (filter (\<lambda>u. u_bus u = b) ?conv)). nonneg v"
      using assms by auto
    then show "nonneg (snd row)" unfolding row snd_conv by (rule nonneg_series_sum)
  qed
  then have "\<forall>row \<in> set (reindex ?s idx (Fin 0)). nonneg (snd row)" by (rule nonneg_reindex)
  then show ?thesis by (simp add: conv_p_nom_def Let_def)
qed

lemma nonneg_gen_table:
  assumes "\<forall>u \<in> set (generators n). nonneg (p_nom u)"
    and "\<forall>u \<in> set (storage_units n). nonneg (p_nom u)"
  shows "\<forall>row \<in> set (gen_table n). nonneg (snd row)"
proof
  fix row assume "row \<in> set (gen_table n)"
  then obtain x y where xy: "x \<in> set (conv_p_nom (generators n) (map bus_name (buses n)))"
      "y \<in> set (conv_p_nom (storage_units n) (map bus_name (buses n)))"
      and row: "row = (fst x, fadd (snd x) (snd y))"
    unfolding gen_table_def by (auto simp add: case_prod_unfold dest!: set_zip_leftD set_zip_rightD
        elim!: in_set_zipE)
  from xy nonneg_conv_p_nom[OF assms(1)] nonneg_conv_p_nom[OF assms(2)]
  have "nonneg (snd x)" "nonneg (snd y)" by blast+
  then show "nonneg (snd row)" unfolding row snd_conv by (rule nonneg_fadd)
qed

lemma nonneg_bus_load:
  assumes "\<forall>l \<in> set (loads n). nonneg (p_set_mean l)"
  shows "\<forall>row \<in> set (bus_load n). nonneg (snd row)"
proof
  fix row assume "row \<in> set (bus_load n)"
  then obtain b where row: "row = (b, series_sum (map p_set_mean (filter (\<lambda>l. l_bus l = b) (loads n))))"
    by (auto simp add: bus_load_def)
  have "\<forall>v \<in> set (map p_set_mean (filter (\<lambda>l. l_bus l = b) (loads n))). nonneg v"
    using assms by auto
  then show "nonneg (snd row)" unfolding row snd_conv by (rule nonneg_series_sum)
qed

lemma sum_list_map_nonneg:
  fixes f :: "'a \<Rightarrow> real"
  shows "\<forall>k \<in> set ks. 0 \<le> f k \<Longrightarrow> 0 \<le> sum_list (map f ks)"
  by (induction ks) simp_all

lemma sum_list_member_le:
  fixes f :: "'a \<Rightarrow> real"
  assumes "\<forall>k \<in> set ks. 0 \<le> f k" and "k \<in> set ks"
  shows "f k \<le> sum_list (map f ks)"
  using assms by (induction ks) (auto simp add: sum_list_map_nonneg add_increasing add_increasing2)

lemma normed_nonneg:
  fixes f :: "'a \<Rightarrow> real"
  assumes "\<forall>k \<in> set ks. 0 \<le> f k"
  shows "normed (map (\<lambda>k. (k, Fin (f k))) ks)
         = map (\<lambda>k. (k, Fin (f k / sum_list (map f ks)))) ks"
proof -
  let ?t = "sum_list (map f ks)"
  have "map snd (map (\<lambda>k. (k, Fin (f k))) ks) = map Fin (map f ks)" by simp
  then have s: "series_sum (map snd (map (\<lambda>k. (k, Fin (f k))) ks)) = Fin ?t"
    by (simp only: series_sum_Fin)
  have zero: "f k = 0" if "k \<in> set ks" "?t = 0" for k
  proof -
    have "f k \<le> ?t" using assms that(1) by (rule sum_list_member_le)
    with that assms show ?thesis by force
  qed
  have "fillna (Fin 0) (fdiv (Fin (f k)) (Fin ?t)) = Fin (f k / ?t)" if "k \<in> set ks" for k
    using zero[OF that] by (simp add: fillna_def is_nan_def)
  then show ?thesis
    unfolding normed_def s by simp
qed

lemma scaled_le:
  fixes x :: real
  assumes "0 < m" and "x \<le> m"
  shows "x * (100 / m) \<le> 100"
proof -
  from assms have "x * (100 / m) \<le> m * (100 / m)" by (intro mult_right_mono) simp_all
  with assms(1) show ?thesis by simp
qed

lemma series_max_foldl:
  "foldl (\<lambda>m v. if fless m v then v else m) (Fin a) (map (\<lambda>k. Fin (h k)) ks)
   = Fin (foldl max a (map h ks))"
  by (induction ks arbitrary: a) (simp_all add: max_def)

lemma foldl_max_bounds:
  fixes a :: real
  shows "a \<le> foldl max a xs \<and> (\<forall>x \<in> set xs. x \<le> foldl max a xs)
         \<and> (foldl max a xs = a \<or> foldl max a xs \<in> set xs)"
proof (induction xs arbitrary: a)
  case Nil
  then show ?case by simp
next
  case (Cons x xs)
  from Cons[of "max a x"] show ?case by (auto simp add: max_def split: if_splits)
qed

lemma series_max_Fin:
  assumes "ks \<noteq> []"
  shows "\<exists>m. series_max (map (\<lambda>k. Fin (h k)) ks) = Fin m
             \<and> (\<forall>k \<in> set ks. h k \<le> m) \<and> m \<in> h ` set ks"
proof -
  obtain k0 ks' where ks: "ks = k0 # ks'" using assms by (cases ks) auto
  have f: "filter (\<lambda>v. \<not> is_nan v) (map (\<lambda>k. Fin (h k)) ks) = map (\<lambda>k. Fin (h k)) ks"
    by (induction ks) (simp_all add: is_nan_def)
  let ?m = "foldl max (h k0) (map h ks')"
  have "series_max (map (\<lambda>k. Fin (h k)) ks) = Fin ?m"
    unfolding series_max_def f by (simp add: ks series_max_foldl)
  moreover from foldl_max_bounds[of "h k0" "map h ks'"]
  have "(\<forall>k \<in> set ks. h k \<le> ?m) \<and> ?m \<in> h ` set ks"
    unfolding ks by auto
  ultimately show ?thesis by blast
qed

lemma astype_int_Fin:
  "astype_int (map (\<lambda>k. (k, Fin (c k))) ks) = Inr (map (\<lambda>k. (k, trunc (c k))) ks)"
  unfolding astype_int_def by (induction ks) simp_all

lemma map2_same_index:
  "map2 (\<lambda>(b, u) (_, v). (b, fadd u v)) (map (\<lambda>k. (k, Fin (p k))) ks) (map (\<lambda>k. (k, Fin (q k))) ks)
   = map (\<lambda>k. (k, Fin (p k + q k))) ks"
  by (induction ks) simp_all

lemma gen_table_reindex:
  assumes "\<forall>u \<in> set (generators n). nonneg (p_nom u)"
    and "\<forall>u \<in> set (storage_units n). nonneg (p_nom u)"
    and "\<forall>l \<in> set (loads n). nonneg (p_set_mean l)"
  shows "reindex (gen_table n) b_i (Fin 0) = map (\<lambda>k. (k, Fin (value_at (gen_table n) k))) b_i"
    and "reindex (bus_load n) b_i (Fin 0) = map (\<lambda>k. (k, Fin (value_at (bus_load n) k))) b_i"
    and "0 \<le> value_at (gen_table n) k" and "0 \<le> value_at (bus_load n) k"
  using reindex_nonneg[OF nonneg_gen_table[OF assms(1,2)]] reindex_nonneg[OF nonneg_bus_load[OF assms(3)]]
  by blast+

text \<open>
  When no capacity and no load is negative or non-finite and some node of the group has
  conventional capacity or load, \<^verbatim>\<open>weighting_for_country\<close> returns one integer weight
  per node of the group, every weight lies between \<open>1\<close> and \<open>100\<close>, and some node has
  weight \<open>100\<close>.
\<close>

theorem weights_between_1_and_100:
  assumes gens: "\<forall>u \<in> set (generators n). nonneg (p_nom u)"
    and stores: "\<forall>u \<in> set (storage_units n). nonneg (p_nom u)"
    and lds: "\<forall>l \<in> set (loads n). nonneg (p_set_mean l)"
    and pos: "\<exists>k \<in> set b_i. 0 < value_at (gen_table n) k \<or> 0 < value_at (bus_load n) k"
  shows "\<exists>w. weighting_for_country n b_i = Inr w \<and> map fst w = b_i
             \<and> (\<forall>row \<in> set w. 1 \<le> snd row \<and> snd row \<le> 100)
             \<and> (\<exists>row \<in> set w. snd row = 100)"
proof -
  note T = gen_table_reindex[OF gens stores lds]
  let ?gv = "value_at (gen_table n)" and ?lv = "value_at (bus_load n)"
  let ?G = "\<lambda>k. ?gv k / sum_list (map ?gv b_i)"
  let ?L = "\<lambda>k. ?lv k / sum_list (map ?lv b_i)"
  let ?W = "\<lambda>k. ?G k + ?L k"
  have g: "normed (reindex (gen_table n) b_i (Fin 0)) = map (\<lambda>k. (k, Fin (?G k))) b_i"
    unfolding T(1) by (rule normed_nonneg) (simp add: T(3))
  have l: "normed (reindex (bus_load n) b_i (Fin 0)) = map (\<lambda>k. (k, Fin (?L k))) b_i"
    unfolding T(2) by (rule normed_nonneg) (simp add: T(4))
  have w: "map2 (\<lambda>(b, u) (_, v). (b, fadd u v))
             (normed (reindex (gen_table n) b_i (Fin 0)))
             (normed (reindex (bus_load n) b_i (Fin 0)))
           = map (\<lambda>k. (k, Fin (?W k))) b_i"
    unfolding g l by (rule map2_same_index)
  have sums: "0 \<le> sum_list (map ?gv b_i)" "0 \<le> sum_list (map ?lv b_i)"
    by (rule sum_list_map_nonneg, simp add: T(3,4))+
  have Gnn: "0 \<le> ?G k" and Lnn: "0 \<le> ?L k" for k
    using sums by (simp_all add: T(3,4))
  from pos obtain k0 where k0: "k0 \<in> set b_i" and some: "0 < ?gv k0 \<or> 0 < ?lv k0" by blast
  from some have "0 < ?G k0 \<or> 0 < ?L k0"
  proof (rule disjE)
    assume p: "0 < ?gv k0"
    have "?gv k0 \<le> sum_list (map ?gv b_i)"
      by (rule sum_list_member_le) (simp_all add: T(3) k0)
    with p show ?thesis by simp
  next
    assume p: "0 < ?lv k0"
    have "?lv k0 \<le> sum_list (map ?lv b_i)"
      by (rule sum_list_member_le) (simp_all add: T(4) k0)
    with p show ?thesis by simp
  qed
  with Gnn[of k0] Lnn[of k0] have Wpos: "0 < ?W k0" by linarith
  from k0 have ne: "b_i \<noteq> []" by auto
  have snd_w: "map snd (map (\<lambda>k. (k, Fin (?W k))) b_i) = map (\<lambda>k. Fin (?W k)) b_i" by simp
  from series_max_Fin[OF ne, of ?W] obtain m
    where m: "series_max (map (\<lambda>k. Fin (?W k)) b_i) = Fin m"
      and ub: "\<forall>k \<in> set b_i. ?W k \<le> m" and att: "m \<in> ?W ` set b_i"
    by blast
  from ub k0 Wpos have mpos: "0 < m" by force
  define c where "c k = max 1 (?W k * (100 / m))" for k
  have scale: "fdiv (Fin 100) (Fin m) = Fin (100 / m)"
    using mpos by simp
  have clip: "clip_lower 1 (fmul (Fin (?W k)) (Fin (100 / m))) = Fin (c k)" for k
    by (simp add: clip_lower_def c_def max_def)
  have clipped: "map (\<lambda>(b, v). (b, clip_lower 1 (fmul v (Fin (100 / m)))))
                   (map (\<lambda>k. (k, Fin (?W k))) b_i)
                 = map (\<lambda>k. (k, Fin (c k))) b_i"
    by (simp only: map_map o_def split_conv clip)
  have run: "weighting_for_country n b_i = Inr (map (\<lambda>k. (k, trunc (c k))) b_i)"
    unfolding weighting_for_country_def Let_def gen_table_def[symmetric] w snd_w m scale clipped
    by (rule astype_int_Fin)
  have rng: "1 \<le> trunc (c k) \<and> trunc (c k) \<le> 100" if "k \<in> set b_i" for k
  proof -
    from ub that have "?W k \<le> m" by blast
    with mpos have "?W k * (100 / m) \<le> 100" by (rule scaled_le)
    then have "1 \<le> c k" "c k \<le> 100" by (simp_all add: c_def)
    then show ?thesis by (simp add: trunc_def le_floor_iff floor_le_iff)
  qed
  from att obtain k1 where k1: "k1 \<in> set b_i" and "m = ?W k1" by blast
  then have "c k1 = max 1 (m * (100 / m))" by (simp only: c_def)
  with mpos have "c k1 = 100" by simp
  then have top: "trunc (c k1) = 100" by (simp add: trunc_def)
  show ?thesis
    unfolding run using rng k1 top by (auto simp add: o_def intro!: bexI[of _ "(k1, trunc (c k1))"])
qed

theorem weights_between_1_and_100_witness:
  "\<exists>w. weighting_for_country net_two_labelled [''a1'', ''a2''] = Inr w
       \<and> map fst w = [''a1'', ''a2''] \<and> (\<exists>row \<in> set w. snd row = 100)"
proof -
  have pos: "\<exists>k \<in> set [''a1'', ''a2''].
               0 < value_at (gen_table net_two_labelled) k
             \<or> 0 < value_at (bus_load net_two_labelled) k"
    by (simp add: value_at_def bus_load_def net_two_labelled_def series_sum_def is_nan_def)
  have "\<forall>u \<in> set (generators net_two_labelled). nonneg (p_nom u)"
    and "\<forall>u \<in> set (storage_units net_two_labelled). nonneg (p_nom u)"
    and "\<forall>l \<in> set (loads net_two_labelled). nonneg (p_set_mean l)"
    by (simp_all add: net_two_labelled_def nonneg_def)
  from weights_between_1_and_100[OF this pos] show ?thesis
    by (elim exE conjE) (rule exI, intro conjI, assumption+)
qed

end
